theory Spec2Isabelle
  imports Complex_Main "HOL-Library.Multiset"
begin

section \<open>Data model\<close>

text \<open>
  The dataset of \<^verbatim>\<open>GraphView.tsx\<close>: \<^verbatim>\<open>RawNode\<close> and \<^verbatim>\<open>RawEdge\<close>. The numbers of the
  source are modelled as reals. The fields \<^verbatim>\<open>title\<close>, \<^verbatim>\<open>title_en\<close>, \<^verbatim>\<open>image_url\<close> and
  \<^verbatim>\<open>scored_by\<close> are read by no function modelled here and are left out. The field
  \<^verbatim>\<open>id\<close> is called \<open>node_id\<close>.
\<close>

record RawNode =
  node_id :: string
  score :: real
  genres :: "string list"

record RawEdge =
  source :: string
  target :: string
  strength :: real

record GraphData =
  data_nodes :: "RawNode list"
  data_edges :: "RawEdge list"

text \<open>
  The attributes a node of the graph carries: the spread \<^verbatim>\<open>...node\<close> of the dataset entry,
  the position \<^verbatim>\<open>x\<close>, \<^verbatim>\<open>y\<close>, the rendered \<^verbatim>\<open>size\<close>, and the attributes that are only
  present after they were set (\<^verbatim>\<open>importance\<close>, \<^verbatim>\<open>fixed\<close>, \<^verbatim>\<open>vx\<close>, \<^verbatim>\<open>vy\<close>): \<open>None\<close> is
  an absent attribute.
\<close>

record NodeAttrs = RawNode +
  pos_x :: real
  pos_y :: real
  node_size :: real
  importance :: "real option"
  fixed :: "bool option"
  vel_x :: "real option"
  vel_y :: "real option"

text \<open>The attributes of an edge: the spread \<^verbatim>\<open>...edge\<close> and \<^verbatim>\<open>weight: edge.strength\<close>.\<close>

record EdgeAttrs = RawEdge +
  weight :: real

text \<open>
  The graph is the \<^verbatim>\<open>graphology\<close> graph \<^verbatim>\<open>new Graph()\<close>: a mixed graph without parallel
  edges, whose \<^verbatim>\<open>addEdge\<close> adds a directed edge. Nodes are kept in insertion order with
  their attributes, edges in insertion order with their source, target and attributes.
\<close>

record Graph =
  nodes :: "(string \<times> NodeAttrs) list"
  edges :: "EdgeAttrs list"

definition emptyGraph :: Graph where
  "emptyGraph = \<lparr>nodes = [], edges = []\<rparr>"

definition nodeKeys :: "Graph \<Rightarrow> string list" where
  "nodeKeys G = map fst (nodes G)"

definition hasNode :: "Graph \<Rightarrow> string \<Rightarrow> bool" where
  "hasNode G n = (map_of (nodes G) n \<noteq> None)"

text \<open>
  \<^verbatim>\<open>graph.hasEdge(source, target)\<close> of a mixed graph: there is a directed edge from
  \<open>s\<close> to \<open>t\<close> (or an undirected edge between them, and this program adds none).
\<close>

definition hasEdge :: "Graph \<Rightarrow> string \<Rightarrow> string \<Rightarrow> bool" where
  "hasEdge G s t = list_ex (\<lambda>e. source e = s \<and> target e = t) (edges G)"

text \<open>\<^verbatim>\<open>graph.degree(node)\<close>: in-degree plus out-degree, a self-loop counts twice.\<close>

definition degree :: "Graph \<Rightarrow> string \<Rightarrow> nat" where
  "degree G n = length (filter (\<lambda>e. source e = n) (edges G))
              + length (filter (\<lambda>e. target e = n) (edges G))"

text \<open>\<^verbatim>\<open>graph.forEachEdge(node, callback)\<close> visits the edges that touch the node.\<close>

definition incidentEdges :: "Graph \<Rightarrow> string \<Rightarrow> EdgeAttrs list" where
  "incidentEdges G n = filter (\<lambda>e. source e = n \<or> target e = n) (edges G)"

section \<open>Visibility resolver\<close>

record FilterState =
  minStrength :: real
  minScore :: real
  selectedGenres :: "string set"
  isAwardWinningOnly :: bool

text \<open>\<^verbatim>\<open>v || 0\<close> on a number: zero stays zero, every other number is itself.\<close>

definition orZero :: "real \<Rightarrow> real" where
  "orZero v = (if v = 0 then 0 else v)"

definition isNodeValid :: "Graph \<Rightarrow> FilterState \<Rightarrow> string \<Rightarrow> bool" where
  "isNodeValid G f n =
    (case map_of (nodes G) n of
       None \<Rightarrow> False
     | Some attrs \<Rightarrow>
         if orZero (score attrs) < minScore f then False
         else if isAwardWinningOnly f then ''Award Winning'' \<in> set (genres attrs)
         else if selectedGenres f \<noteq> {} then list_ex (\<lambda>g. g \<in> selectedGenres f) (genres attrs)
         else True)"

definition validEdges :: "Graph \<Rightarrow> FilterState \<Rightarrow> EdgeAttrs list" where
  "validEdges G f = filter (\<lambda>e. orZero (weight e) \<ge> minStrength f) (edges G)"

definition nodesWithValidEdges :: "Graph \<Rightarrow> FilterState \<Rightarrow> string list" where
  "nodesWithValidEdges G f = concat (map (\<lambda>e. [source e, target e]) (validEdges G f))"

text \<open>The neighbour the callback of \<^verbatim>\<open>forEachEdge(id, ...)\<close> computes for an edge.\<close>

definition neighborOf :: "string \<Rightarrow> EdgeAttrs \<Rightarrow> string" where
  "neighborOf n e = (if source e = n then target e else source e)"

text \<open>
  The set the loop over \<^verbatim>\<open>graph.forEachEdge(id, ...)\<close> collects (\<^verbatim>\<open>candidates\<close> for the
  first selected id, \<^verbatim>\<open>nextNeighbors\<close> for the later ones), as the list of its insertions.
\<close>

definition collectNeighbors :: "Graph \<Rightarrow> FilterState \<Rightarrow> string \<Rightarrow> string list" where
  "collectNeighbors G f n =
     map (neighborOf n)
       (filter (\<lambda>e. e \<in> set (validEdges G f) \<and> isNodeValid G f (neighborOf n e))
          (incidentEdges G n))"

text \<open>The loop \<^verbatim>\<open>for (let i = 1; i < selectedArray.length; i++)\<close>.\<close>

fun intersectLoop :: "Graph \<Rightarrow> FilterState \<Rightarrow> string list \<Rightarrow> string list \<Rightarrow> string list" where
  "intersectLoop G f candidates [] = candidates"
| "intersectLoop G f candidates (nextId # rest) =
     intersectLoop G f
       (if hasNode G nextId
        then filter (\<lambda>c. c \<in> set (collectNeighbors G f nextId)) candidates
        else candidates)
       rest"

text \<open>
  The set \<^verbatim>\<open>activeNodes\<close> handed to \<^verbatim>\<open>onUpdateVisibleNodes\<close>; \<open>selectedArray\<close> is
  \<^verbatim>\<open>Array.from(selectedNodes)\<close>, the selection in insertion order.
\<close>

definition activeNodes :: "Graph \<Rightarrow> FilterState \<Rightarrow> string list \<Rightarrow> string set" where
  "activeNodes G f selectedArray =
    (case selectedArray of
       [] \<Rightarrow> set (filter (\<lambda>n. n \<in> set (nodesWithValidEdges G f) \<and> isNodeValid G f n) (nodeKeys G))
     | firstId # rest \<Rightarrow>
         if hasNode G firstId
         then set selectedArray \<union> set (intersectLoop G f (collectNeighbors G f firstId) rest)
         else {})"

section \<open>Graph loader\<close>

definition LOAD_MIN_SCORE :: real where
  "LOAD_MIN_SCORE = 1"

text \<open>
  The body of \<^verbatim>\<open>data.nodes.forEach\<close> in \<^verbatim>\<open>GraphLoader\<close>. The initial position is random
  in the source (\<^verbatim>\<open>Math.random\<close>); \<open>initPos\<close> stands for the position it draws.
\<close>

definition addNodeStep ::
  "(RawNode \<Rightarrow> real \<times> real) \<Rightarrow> Graph \<times> RawNode list \<Rightarrow> RawNode \<Rightarrow> Graph \<times> RawNode list" where
  "addNodeStep initPos st node =
    (case st of (G, loadedNodes) \<Rightarrow>
      if score node < LOAD_MIN_SCORE then (G, loadedNodes)
      else if \<not> hasNode G (node_id node)
      then (G\<lparr>nodes := nodes G @
               [(node_id node,
                 \<lparr>node_id = node_id node, score = score node, genres = genres node,
                  pos_x = fst (initPos node), pos_y = snd (initPos node), node_size = 3,
                  importance = None, fixed = None, vel_x = None, vel_y = None\<rparr>)]\<rparr>,
            loadedNodes @ [node])
      else (G, loadedNodes))"

text \<open>The body of \<^verbatim>\<open>data.edges.forEach\<close>.\<close>

definition addEdgeStep :: "Graph \<Rightarrow> RawEdge \<Rightarrow> Graph" where
  "addEdgeStep G edge =
    (if hasNode G (source edge) \<and> hasNode G (target edge)
     then (if \<not> hasEdge G (source edge) (target edge)
           then G\<lparr>edges := edges G @
                  [\<lparr>source = source edge, target = target edge, strength = strength edge,
                    weight = strength edge\<rparr>]\<rparr>
           else G)
     else G)"

text \<open>\<^verbatim>\<open>graph.dropNode(node)\<close> removes the node and the edges that touch it.\<close>

definition dropNode :: "Graph \<Rightarrow> string \<Rightarrow> Graph" where
  "dropNode G n =
     G\<lparr>nodes := filter (\<lambda>p. fst p \<noteq> n) (nodes G),
       edges := filter (\<lambda>e. source e \<noteq> n \<and> target e \<noteq> n) (edges G)\<rparr>"

text \<open>
  \<^verbatim>\<open>graph.forEachNode((node) => { if (graph.degree(node) === 0) graph.dropNode(node); })\<close>:
  the iteration visits every key of the graph, and a key deleted while it is visited
  leaves the iteration intact.
\<close>

definition dropIsolated :: "Graph \<Rightarrow> Graph" where
  "dropIsolated G = foldl (\<lambda>H n. if degree H n = 0 then dropNode H n else H) G (nodeKeys G)"

text \<open>
  \<^verbatim>\<open>Math.min(...degrees)\<close> and \<^verbatim>\<open>Math.max(...degrees)\<close>. On the empty list the source
  gets \<^verbatim>\<open>Infinity\<close> and \<^verbatim>\<open>-Infinity\<close>, which nothing reads (the loop that uses them runs
  over no node then); the model returns 0 there.
\<close>

definition minOf :: "nat list \<Rightarrow> nat" where
  "minOf ds = (case ds of [] \<Rightarrow> 0 | d # r \<Rightarrow> fold min r d)"

definition maxOf :: "nat list \<Rightarrow> nat" where
  "maxOf ds = (case ds of [] \<Rightarrow> 0 | d # r \<Rightarrow> fold max r d)"

text \<open>\<^verbatim>\<open>(degree - minDegree) / (maxDegree - minDegree || 1)\<close>.\<close>

definition ratioOf :: "nat \<Rightarrow> nat \<Rightarrow> nat \<Rightarrow> real" where
  "ratioOf d minDegree maxDegree =
     (real d - real minDegree) /
     (if real maxDegree - real minDegree = 0 then 1 else real maxDegree - real minDegree)"

text \<open>The second \<^verbatim>\<open>graph.forEachNode\<close>: it sets \<^verbatim>\<open>size\<close> and \<^verbatim>\<open>importance\<close>.\<close>

definition assignSizes :: "Graph \<Rightarrow> nat \<Rightarrow> nat \<Rightarrow> Graph" where
  "assignSizes G minDegree maxDegree =
     G\<lparr>nodes := map (\<lambda>p. (fst p,
          (snd p)\<lparr>node_size := 3 + ratioOf (degree G (fst p)) minDegree maxDegree * 12,
                  importance := Some (ratioOf (degree G (fst p)) minDegree maxDegree)\<rparr>))
        (nodes G)\<rparr>"

text \<open>
  \<^verbatim>\<open>forceAtlas2.assign\<close> writes the positions of the nodes and nothing else; \<open>lay\<close> stands
  for the positions the pass computes.
\<close>

definition assignLayout :: "(string \<Rightarrow> real \<times> real) \<Rightarrow> Graph \<Rightarrow> Graph" where
  "assignLayout lay G =
     G\<lparr>nodes := map (\<lambda>p. (fst p, (snd p)\<lparr>pos_x := fst (lay (fst p)), pos_y := snd (lay (fst p))\<rparr>))
        (nodes G)\<rparr>"

text \<open>
  The effect of \<^verbatim>\<open>GraphLoader\<close>: the graph handed to \<^verbatim>\<open>loadGraph\<close> and the list handed to
  \<^verbatim>\<open>setNodeList\<close>.
\<close>

definition load ::
  "(RawNode \<Rightarrow> real \<times> real) \<Rightarrow> (string \<Rightarrow> real \<times> real) \<Rightarrow> GraphData \<Rightarrow> Graph \<times> RawNode list" where
  "load initPos lay data =
    (let st = foldl (addNodeStep initPos) (emptyGraph, []) (data_nodes data);
         G2 = foldl addEdgeStep (fst st) (data_edges data);
         G3 = dropIsolated G2;
         degrees = map (degree G3) (nodeKeys G3);
         G4 = assignSizes G3 (minOf degrees) (maxOf degrees);
         G5 = (if nodes G4 \<noteq> [] then assignLayout lay G4 else G4)
     in (G5, snd st))"

definition loadedGraph :: "(RawNode \<Rightarrow> real \<times> real) \<Rightarrow> (string \<Rightarrow> real \<times> real) \<Rightarrow> GraphData \<Rightarrow> Graph" where
  "loadedGraph initPos lay data = fst (load initPos lay data)"

section \<open>The scenario dataset\<close>

text \<open>
  Three nodes X (score 9), Y (score 5), Z (score 7) without genres, and the edges
  X-Y of strength 0.4 and X-Z of strength 0.1.
\<close>

definition scenarioData :: GraphData where
  "scenarioData =
     \<lparr>data_nodes =
        [\<lparr>node_id = ''X'', score = 9, genres = []\<rparr>,
         \<lparr>node_id = ''Y'', score = 5, genres = []\<rparr>,
         \<lparr>node_id = ''Z'', score = 7, genres = []\<rparr>],
      data_edges =
        [\<lparr>source = ''X'', target = ''Y'', strength = 0.4\<rparr>,
         \<lparr>source = ''X'', target = ''Z'', strength = 0.1\<rparr>]\<rparr>"

definition scenarioGraph :: Graph where
  "scenarioGraph = loadedGraph (\<lambda>n. (0, 0)) (\<lambda>k. (0, 0)) scenarioData"

text \<open>
  A dataset with a node that no edge touches: \<^verbatim>\<open>GraphLoader\<close> puts W on the node list
  and then drops it from the graph.
\<close>

definition isolatedData :: GraphData where
  "isolatedData =
     scenarioData\<lparr>data_nodes := data_nodes scenarioData @
        [\<lparr>node_id = ''W'', score = 9, genres = []\<rparr>]\<rparr>"

text \<open>
  A dataset that declares the pair A, B three times: twice from A to B, once from B to A.
\<close>

definition reversedPairData :: GraphData where
  "reversedPairData =
     \<lparr>data_nodes =
        [\<lparr>node_id = ''A'', score = 5, genres = []\<rparr>,
         \<lparr>node_id = ''B'', score = 5, genres = []\<rparr>],
      data_edges =
        [\<lparr>source = ''A'', target = ''B'', strength = 0.5\<rparr>,
         \<lparr>source = ''A'', target = ''B'', strength = 0.9\<rparr>,
         \<lparr>source = ''B'', target = ''A'', strength = 0.7\<rparr>]\<rparr>"

definition reversedPairGraph :: Graph where
  "reversedPairGraph = loadedGraph (\<lambda>n. (0, 0)) (\<lambda>k. (0, 0)) reversedPairData"

definition isolatedGraph :: Graph where
  "isolatedGraph = loadedGraph (\<lambda>n. (0, 0)) (\<lambda>k. (0, 0)) isolatedData"

text \<open>A dataset with an award winner P and its neighbour Q.\<close>

definition awardData :: GraphData where
  "awardData =
     \<lparr>data_nodes =
        [\<lparr>node_id = ''P'', score = 8, genres = [''Drama'', ''Award Winning'']\<rparr>,
         \<lparr>node_id = ''Q'', score = 7, genres = [''Action'']\<rparr>],
      data_edges = [\<lparr>source = ''P'', target = ''Q'', strength = 0.3\<rparr>]\<rparr>"

definition awardGraph :: Graph where
  "awardGraph = loadedGraph (\<lambda>n. (0, 0)) (\<lambda>k. (0, 0)) awardData"

text \<open>The filter states of the scenarios A, B and C, and one with the award switch on.\<close>

definition filterA :: FilterState where
  "filterA = \<lparr>minStrength = 0.2, minScore = 6, selectedGenres = {}, isAwardWinningOnly = False\<rparr>"

definition filterB :: FilterState where
  "filterB = \<lparr>minStrength = 0.2, minScore = 1, selectedGenres = {}, isAwardWinningOnly = False\<rparr>"

definition filterC :: FilterState where
  "filterC = \<lparr>minStrength = 0, minScore = 1, selectedGenres = {}, isAwardWinningOnly = False\<rparr>"

definition filterAward :: FilterState where
  "filterAward = \<lparr>minStrength = 0.2, minScore = 6, selectedGenres = {}, isAwardWinningOnly = True\<rparr>"

section \<open>The visibility resolver in the words of the specification\<close>

text \<open>
  A node is filter-valid iff its score reaches the minimum score and, with the award
  switch on, its genres include the award tag; else, with a non-empty genre selection,
  its genres meet the selection; else it is unconstrained.
\<close>

definition filterValid :: "Graph \<Rightarrow> FilterState \<Rightarrow> string \<Rightarrow> bool" where
  "filterValid G f n =
     (\<exists>a. map_of (nodes G) n = Some a \<and> score a \<ge> minScore f \<and>
          (if isAwardWinningOnly f then ''Award Winning'' \<in> set (genres a)
           else selectedGenres f = {} \<or> set (genres a) \<inter> selectedGenres f \<noteq> {}))"

text \<open>An edge is strength-valid iff its strength reaches the minimum strength.\<close>

definition strengthValid :: "FilterState \<Rightarrow> EdgeAttrs \<Rightarrow> bool" where
  "strengthValid f e = (strength e \<ge> minStrength f)"

text \<open>
  The resolver reads the attribute \<^verbatim>\<open>weight\<close>, which the loader sets to the strength of
  the dataset edge.
\<close>

definition weightIsStrength :: "Graph \<Rightarrow> bool" where
  "weightIsStrength G = (\<forall>e \<in> set (edges G). weight e = strength e)"

text \<open>The neighbour set of an id, restricted to strength-valid edges and filter-valid neighbours.\<close>

definition qualifyingNeighbors :: "Graph \<Rightarrow> FilterState \<Rightarrow> string \<Rightarrow> string set" where
  "qualifyingNeighbors G f n =
     {m. \<exists>e. e \<in> set (edges G) \<and> strengthValid f e \<and>
             ((source e = n \<and> target e = m) \<or> (source e = m \<and> target e = n)) \<and>
             filterValid G f m}"

text \<open>
  The running candidate set: the neighbour set of the first selected id, with the
  neighbour set of each later id intersected into it in selection order.
\<close>

definition runningCandidates :: "Graph \<Rightarrow> FilterState \<Rightarrow> string list \<Rightarrow> string set" where
  "runningCandidates G f sel =
     foldl (\<lambda>c n. c \<inter> qualifyingNeighbors G f n) (qualifyingNeighbors G f (hd sel)) (tl sel)"

text \<open>The edges of the graph between two ids, in either orientation.\<close>

definition edgesBetween :: "Graph \<Rightarrow> string \<Rightarrow> string \<Rightarrow> EdgeAttrs list" where
  "edgesBetween G a b =
     filter (\<lambda>e. (source e = a \<and> target e = b) \<or> (source e = b \<and> target e = a)) (edges G)"

section \<open>Interaction controller\<close>

text \<open>
  The node attribute methods of \<^verbatim>\<open>graphology\<close> throw \<^verbatim>\<open>NotFoundGraphError\<close> when the
  node is not in the graph.
\<close>

datatype GraphError = NotFoundGraphError

definition getNodeAttributes :: "Graph \<Rightarrow> string \<Rightarrow> GraphError + NodeAttrs" where
  "getNodeAttributes G n =
     (case map_of (nodes G) n of None \<Rightarrow> Inl NotFoundGraphError | Some a \<Rightarrow> Inr a)"

text \<open>\<^verbatim>\<open>graph.hasNodeAttribute(node, 'fixed')\<close>.\<close>

definition hasNodeAttributeFixed :: "Graph \<Rightarrow> string \<Rightarrow> GraphError + bool" where
  "hasNodeAttributeFixed G n =
     (case map_of (nodes G) n of None \<Rightarrow> Inl NotFoundGraphError | Some a \<Rightarrow> Inr (fixed a \<noteq> None))"

text \<open>
  \<^verbatim>\<open>graph.setNodeAttribute\<close> and \<^verbatim>\<open>graph.removeNodeAttribute\<close>: the attributes of the node
  are changed by \<open>u\<close>.
\<close>

definition updateNodeAttributes :: "Graph \<Rightarrow> string \<Rightarrow> (NodeAttrs \<Rightarrow> NodeAttrs) \<Rightarrow> GraphError + Graph" where
  "updateNodeAttributes G n u =
     (if hasNode G n
      then Inr (G\<lparr>nodes := map (\<lambda>p. if fst p = n then (fst p, u (snd p)) else p) (nodes G)\<rparr>)
      else Inl NotFoundGraphError)"

text \<open>\<^verbatim>\<open>dragInfoRef.current\<close>.\<close>

record DragInfo =
  nodeId :: string
  startX :: real
  startY :: real
  isDragging :: bool

text \<open>
  The state the handlers of \<^verbatim>\<open>InteractiveGraph\<close> read and write: the graph,
  \<^verbatim>\<open>dragInfoRef\<close>, the selection held by \<^verbatim>\<open>index.tsx\<close> (in insertion order), the node list
  of \<^verbatim>\<open>GraphView\<close>, the camera animations started so far (the id of the node each one
  frames, oldest first), the node whose tooltip is shown, if any (the \<^verbatim>\<open>tooltip\<close> state
  of \<^verbatim>\<open>GraphView\<close>), the cursor of the container, and whether the \<^verbatim>\<open>mousemove\<close> and
  \<^verbatim>\<open>mouseup\<close> listeners that \<^verbatim>\<open>downNode\<close> adds to the document are attached.
\<close>

record UIState =
  graph :: Graph
  dragInfoRef :: "DragInfo option"
  selectedNodes :: "string list"
  nodeList :: "RawNode list"
  focusLog :: "string list"
  tooltip :: "string option"
  cursor :: string
  listening :: bool

record MouseEvent =
  clientX :: real
  clientY :: real

text \<open>
  The \<^verbatim>\<open>downNode\<close> event: \<open>down_button\<close> is \<open>None\<close> when the original event has no
  \<^verbatim>\<open>button\<close> (a touch event); \<open>down_x\<close> and \<open>down_y\<close> are the coordinates the handler
  picks (the first touch, or the mouse position).
\<close>

record DownEvent =
  down_button :: "nat option"
  down_x :: real
  down_y :: real

definition downNode :: "UIState \<Rightarrow> string \<Rightarrow> DownEvent \<Rightarrow> UIState" where
  "downNode st n ev =
     (if down_button ev \<noteq> None \<and> down_button ev \<noteq> Some 0 then st
      else st\<lparr>dragInfoRef :=
                Some \<lparr>nodeId = n, startX = down_x ev, startY = down_y ev, isDragging = False\<rparr>,
              listening := True\<rparr>)"

text \<open>\<^verbatim>\<open>Math.hypot(dx, dy) > 5\<close>.\<close>

definition exceedsThreshold :: "real \<Rightarrow> real \<Rightarrow> MouseEvent \<Rightarrow> bool" where
  "exceedsThreshold sx sy ev = (sqrt ((clientX ev - sx)\<^sup>2 + (clientY ev - sy)\<^sup>2) > 5)"

text \<open>The first block of \<^verbatim>\<open>handleMouseMove\<close>: the gesture becomes a drag and the node is pinned.\<close>

definition beginDrag :: "UIState \<Rightarrow> DragInfo \<Rightarrow> GraphError + UIState" where
  "beginDrag st d =
     (case hasNodeAttributeFixed (graph st) (nodeId d) of
        Inl err \<Rightarrow> Inl err
      | Inr has \<Rightarrow>
          (case (if \<not> has then updateNodeAttributes (graph st) (nodeId d) (\<lambda>a. a\<lparr>fixed := Some True\<rparr>)
                 else Inr (graph st)) of
             Inl err \<Rightarrow> Inl err
           | Inr G \<Rightarrow>
               Inr (st\<lparr>graph := G, dragInfoRef := Some (d\<lparr>isDragging := True\<rparr>),
                       tooltip := None, cursor := ''grabbing''\<rparr>)))"

text \<open>
  The second block of \<^verbatim>\<open>handleMouseMove\<close>: the four \<^verbatim>\<open>setNodeAttribute\<close> calls. \<open>toGraph\<close>
  stands for \<^verbatim>\<open>sigma.viewportToGraph\<close> applied to the pointer position within the container.
\<close>

definition writePosition :: "(MouseEvent \<Rightarrow> real \<times> real) \<Rightarrow> UIState \<Rightarrow> DragInfo \<Rightarrow> MouseEvent \<Rightarrow> GraphError + UIState" where
  "writePosition toGraph st d ev =
     (case updateNodeAttributes (graph st) (nodeId d)
             (\<lambda>a. a\<lparr>pos_x := fst (toGraph ev), pos_y := snd (toGraph ev),
                     vel_x := Some 0, vel_y := Some 0\<rparr>) of
        Inl err \<Rightarrow> Inl err
      | Inr G \<Rightarrow> Inr (st\<lparr>graph := G\<rparr>))"

definition handleMouseMove :: "(MouseEvent \<Rightarrow> real \<times> real) \<Rightarrow> UIState \<Rightarrow> MouseEvent \<Rightarrow> GraphError + UIState" where
  "handleMouseMove toGraph st ev =
     (case dragInfoRef st of
        None \<Rightarrow> Inr st
      | Some d \<Rightarrow>
          (case (if \<not> isDragging d \<and> exceedsThreshold (startX d) (startY d) ev
                 then beginDrag st d else Inr st) of
             Inl err \<Rightarrow> Inl err
           | Inr st1 \<Rightarrow>
               (case dragInfoRef st1 of
                  None \<Rightarrow> Inr st1
                | Some d1 \<Rightarrow> if isDragging d1 then writePosition toGraph st1 d1 ev else Inr st1)))"

text \<open>\<^verbatim>\<open>handleToggleNode\<close> of \<^verbatim>\<open>index.tsx\<close> on the selection.\<close>

definition toggleSelection :: "string list \<Rightarrow> string \<Rightarrow> string list" where
  "toggleSelection sel n = (if n \<in> set sel then removeAll n sel else sel @ [n])"

text \<open>\<^verbatim>\<open>handleGraphToggle\<close> of \<^verbatim>\<open>GraphView\<close>, the \<^verbatim>\<open>onToggleNode\<close> of \<^verbatim>\<open>InteractiveGraph\<close>.\<close>

definition handleGraphToggle :: "UIState \<Rightarrow> string \<Rightarrow> UIState" where
  "handleGraphToggle st n =
     (case find (\<lambda>t. node_id t = n) (nodeList st) of
        None \<Rightarrow> st
      | Some t \<Rightarrow> st\<lparr>selectedNodes := toggleSelection (selectedNodes st) (node_id t)\<rparr>)"

text \<open>
  \<^verbatim>\<open>handleFocus\<close>: the renderer holds display data for every node of the graph, so the
  animation starts when the node is in the graph.
\<close>

definition handleFocus :: "UIState \<Rightarrow> string \<Rightarrow> UIState" where
  "handleFocus st n =
     (if \<not> hasNode (graph st) n then st else st\<lparr>focusLog := focusLog st @ [n]\<rparr>)"

definition handleMouseUp :: "UIState \<Rightarrow> GraphError + UIState" where
  "handleMouseUp st =
     (case dragInfoRef st of
        None \<Rightarrow> Inr st
      | Some d \<Rightarrow>
          (case (if isDragging d
                 then (if hasNode (graph st) (nodeId d)
                       then (case updateNodeAttributes (graph st) (nodeId d) (\<lambda>a. a\<lparr>fixed := None\<rparr>) of
                               Inl err \<Rightarrow> Inl err
                             | Inr G \<Rightarrow> Inr (st\<lparr>graph := G\<rparr>))
                       else Inr st)
                 else (case getNodeAttributes (graph st) (nodeId d) of
                         Inl err \<Rightarrow> Inl err
                       | Inr attrs \<Rightarrow>
                           Inr (handleFocus (handleGraphToggle st (node_id attrs)) (nodeId d)))) of
             Inl err \<Rightarrow> Inl err
           | Inr st1 \<Rightarrow>
               Inr (st1\<lparr>dragInfoRef := None, cursor := ''default'', listening := False\<rparr>)))"

text \<open>
  The cleanup of the effect that holds the handlers: it removes the two listeners from
  the document.
\<close>

definition effectCleanup :: "UIState \<Rightarrow> UIState" where
  "effectCleanup st = st\<lparr>listening := False\<rparr>"

text \<open>
  What follows a handler that changed the \<^verbatim>\<open>tooltip\<close> state of \<^verbatim>\<open>GraphView\<close> or the selection
  of the page: \<^verbatim>\<open>GraphView\<close> is rendered again and hands \<^verbatim>\<open>InteractiveGraph\<close> a new
  \<^verbatim>\<open>onToggleNode\<close> function, which is a dependency of the effect that holds the handlers,
  so the cleanup of the effect runs. The effect then registers the sigma events again
  and adds no listener to the document. \<open>before\<close> is the state the handler started in,
  \<open>after\<close> the state it left.
\<close>

definition afterHandler :: "UIState \<Rightarrow> UIState \<Rightarrow> UIState" where
  "afterHandler before after =
     (if tooltip after \<noteq> tooltip before \<or> selectedNodes after \<noteq> selectedNodes before
      then effectCleanup after else after)"

text \<open>
  A \<^verbatim>\<open>mousemove\<close> and a \<^verbatim>\<open>mouseup\<close> on the document: the handler runs when its listener is
  attached.
\<close>

definition dispatchMove :: "(MouseEvent \<Rightarrow> real \<times> real) \<Rightarrow> UIState \<Rightarrow> MouseEvent \<Rightarrow> GraphError + UIState" where
  "dispatchMove toGraph st ev =
     (if \<not> listening st then Inr st
      else (case handleMouseMove toGraph st ev of
              Inl err \<Rightarrow> Inl err
            | Inr st1 \<Rightarrow> Inr (afterHandler st st1)))"

definition dispatchUp :: "UIState \<Rightarrow> GraphError + UIState" where
  "dispatchUp st =
     (if \<not> listening st then Inr st
      else (case handleMouseUp st of
              Inl err \<Rightarrow> Inl err
            | Inr st1 \<Rightarrow> Inr (afterHandler st st1)))"

text \<open>The pointer-move events of a gesture, one after the other.\<close>

fun runMoves :: "(MouseEvent \<Rightarrow> real \<times> real) \<Rightarrow> UIState \<Rightarrow> MouseEvent list \<Rightarrow> GraphError + UIState" where
  "runMoves toGraph st [] = Inr st"
| "runMoves toGraph st (ev # evs) =
     (case dispatchMove toGraph st ev of
        Inl err \<Rightarrow> Inl err
      | Inr st1 \<Rightarrow> runMoves toGraph st1 evs)"

text \<open>The state in which the view starts on a dataset: nothing selected, no gesture.\<close>

definition initialState :: "(RawNode \<Rightarrow> real \<times> real) \<Rightarrow> (string \<Rightarrow> real \<times> real) \<Rightarrow> GraphData \<Rightarrow> UIState" where
  "initialState initPos lay data =
     \<lparr>graph = fst (load initPos lay data), dragInfoRef = None, selectedNodes = [],
      nodeList = snd (load initPos lay data), focusLog = [], tooltip = None,
      cursor = ''default'', listening = False\<rparr>"

section \<open>Discovery mode\<close>

definition GRID_SIZE :: nat where
  "GRID_SIZE = 25"

definition candidates :: "RawNode list \<Rightarrow> RawNode list" where
  "candidates nl = filter (\<lambda>n. score n \<ge> 8 \<or> ''Award Winning'' \<in> set (genres n)) nl"

text \<open>
  \<^verbatim>\<open>refreshNodes\<close>: \<open>shuffled\<close> stands for the result of sorting a copy of the candidates
  with the random comparator, \<open>displayedNodes\<close> is the grid before the call, the result
  is the grid after it.
\<close>

definition refreshNodes :: "RawNode list \<Rightarrow> RawNode list \<Rightarrow> RawNode list \<Rightarrow> RawNode list" where
  "refreshNodes cands shuffled displayedNodes =
     (if length cands = 0 then displayedNodes else take GRID_SIZE shuffled)"

text \<open>
  The grids the modal can display for a node list: the empty initial grid, and the
  result of a refresh whose shuffle is a rearrangement of the candidates.
\<close>

inductive gridShown :: "RawNode list \<Rightarrow> RawNode list \<Rightarrow> bool" for nl :: "RawNode list" where
  initial: "gridShown nl []"
| refresh: "gridShown nl g \<Longrightarrow> mset shuffled = mset (candidates nl) \<Longrightarrow>
            gridShown nl (refreshNodes (candidates nl) shuffled g)"

section \<open>Auxiliary notions for the loader\<close>

text \<open>The graph after the first three passes of \<^verbatim>\<open>GraphLoader\<close>: nodes, edges, isolated nodes dropped.\<close>

definition prunedGraph :: "(RawNode \<Rightarrow> real \<times> real) \<Rightarrow> GraphData \<Rightarrow> Graph" where
  "prunedGraph initPos data =
     dropIsolated (foldl addEdgeStep (fst (foldl (addNodeStep initPos) (emptyGraph, []) (data_nodes data)))
        (data_edges data))"

text \<open>What the loop over the nodes of the dataset maintains.\<close>

definition nodesOk :: "Graph \<times> RawNode list \<Rightarrow> bool" where
  "nodesOk st = (edges (fst st) = [] \<and> distinct (nodeKeys (fst st)) \<and>
     nodeKeys (fst st) = map node_id (snd st) \<and>
     (\<forall>p \<in> set (nodes (fst st)). node_id (snd p) = fst p \<and> LOAD_MIN_SCORE \<le> score (snd p) \<and> fixed (snd p) = None))"

definition sameEnds :: "EdgeAttrs \<Rightarrow> RawEdge \<Rightarrow> bool" where
  "sameEnds e d = (source d = source e \<and> target d = target e)"

text \<open>What the loop over the edges of the dataset maintains; \<open>seen\<close> is the part of the list already visited.\<close>

definition edgesOk :: "Graph \<Rightarrow> RawEdge list \<Rightarrow> bool" where
  "edgesOk G seen =
     ((\<forall>d \<in> set seen. hasNode G (source d) \<and> hasNode G (target d) \<longrightarrow> hasEdge G (source d) (target d)) \<and>
      (\<forall>e \<in> set (edges G). hasNode G (source e) \<and> hasNode G (target e) \<and> weight e = strength e \<and>
           (\<exists>d. find (sameEnds e) seen = Some d \<and> strength d = strength e)) \<and>
      distinct (map (\<lambda>e. (source e, target e)) (edges G)))"

text \<open>The edges of the graph from one id to another.\<close>

definition edgesFromTo :: "Graph \<Rightarrow> string \<Rightarrow> string \<Rightarrow> EdgeAttrs list" where
  "edgesFromTo G s t = filter (\<lambda>e. source e = s \<and> target e = t) (edges G)"

text \<open>
  Importance in the words of the specification: degree minus the minimal degree, over
  the maximal degree minus the minimal degree, taken over the nodes of the graph, and 0
  when all degrees are equal.
\<close>

definition minDegree :: "Graph \<Rightarrow> nat" where
  "minDegree G = Min (set (map (degree G) (nodeKeys G)))"

definition maxDegree :: "Graph \<Rightarrow> nat" where
  "maxDegree G = Max (set (map (degree G) (nodeKeys G)))"

definition specImportance :: "Graph \<Rightarrow> string \<Rightarrow> real" where
  "specImportance G n =
     (if maxDegree G = minDegree G then 0
      else (real (degree G n) - real (minDegree G)) / (real (maxDegree G) - real (minDegree G)))"

section \<open>Auxiliary notions for the gestures\<close>

text \<open>
  A whole gesture on a node: pointer-down, the pointer-moves, pointer-up. The hover
  events of sigma (\<^verbatim>\<open>enterNode\<close>, \<^verbatim>\<open>leaveNode\<close>) are not among its events.
\<close>

definition gesture ::
  "(MouseEvent \<Rightarrow> real \<times> real) \<Rightarrow> UIState \<Rightarrow> string \<Rightarrow> DownEvent \<Rightarrow> MouseEvent list \<Rightarrow> GraphError + UIState" where
  "gesture toGraph st n down moves =
     (case runMoves toGraph (downNode st n down) moves of
        Inl err \<Rightarrow> Inl err
      | Inr st1 \<Rightarrow> dispatchUp st1)"

text \<open>
  What the loader establishes for the graph and the node list: every node of the graph
  carries its own key as \<^verbatim>\<open>id\<close> and is on the node list.
\<close>

definition consistent :: "UIState \<Rightarrow> bool" where
  "consistent st =
     (\<forall>p \<in> set (nodes (graph st)). node_id (snd p) = fst p \<and> fst p \<in> node_id ` set (nodeList st))"

text \<open>The state of the view on the scenario dataset, and a pointer-down on a node at (100, 100).\<close>

definition scenarioState :: UIState where
  "scenarioState = initialState (\<lambda>n. (0, 0)) (\<lambda>k. (0, 0)) scenarioData"

text \<open>The same state with the pointer resting on X: the tooltip of X is shown.\<close>

definition hoverState :: UIState where
  "hoverState = scenarioState\<lparr>tooltip := Some ''X''\<rparr>"

definition primaryDown :: DownEvent where
  "primaryDown = \<lparr>down_button = Some 0, down_x = 100, down_y = 100\<rparr>"

text \<open>The projection used in the examples: graph coordinates are the client coordinates.\<close>

definition plainProjection :: "MouseEvent \<Rightarrow> real \<times> real" where
  "plainProjection ev = (clientX ev, clientY ev)"

text \<open>The node list of the award dataset.\<close>

definition awardNodeList :: "RawNode list" where
  "awardNodeList = snd (load (\<lambda>n. (0, 0)) (\<lambda>k. (0, 0)) awardData)"

section \<open>Lemmas about the visibility resolver\<close>

lemma orZero_id: "orZero v = v"
  by (simp add: orZero_def)

lemma in_validEdges:
  "e \<in> set (validEdges G f) \<longleftrightarrow> e \<in> set (edges G) \<and> minStrength f \<le> weight e"
  by (auto simp: validEdges_def orZero_id)

lemma isNodeValid_filterValid: "isNodeValid G f n = filterValid G f n"
  by (auto simp: isNodeValid_def filterValid_def orZero_id list_ex_iff split: option.splits)

lemma set_collectNeighbors:
  assumes "weightIsStrength G"
  shows "set (collectNeighbors G f n) = qualifyingNeighbors G f n"
proof -
  have "e \<in> set (validEdges G f) \<longleftrightarrow> e \<in> set (edges G) \<and> strengthValid f e" for e
    using assms by (auto simp: in_validEdges strengthValid_def weightIsStrength_def)
  then show ?thesis
    unfolding collectNeighbors_def qualifyingNeighbors_def incidentEdges_def
    by (auto simp: isNodeValid_filterValid neighborOf_def image_iff)
qed

lemma set_intersectLoop:
  assumes "weightIsStrength G"
  shows "(\<forall>n \<in> set rest. hasNode G n) \<Longrightarrow>
   set (intersectLoop G f c rest) = foldl (\<lambda>c n. c \<inter> qualifyingNeighbors G f n) (set c) rest"
proof (induction rest arbitrary: c)
  case Nil
  then show ?case by simp
next
  case (Cons a rest)
  have "set (filter (\<lambda>c. c \<in> set (collectNeighbors G f a)) c) = set c \<inter> qualifyingNeighbors G f a"
    using assms by (auto simp: set_collectNeighbors)
  with Cons show ?case by simp
qed

lemma intersectLoop_subset: "set (intersectLoop G f c rest) \<subseteq> set c"
proof (induction rest arbitrary: c)
  case Nil
  then show ?case by simp
next
  case (Cons a rest)
  have "set (intersectLoop G f (if hasNode G a then filter (\<lambda>c. c \<in> set (collectNeighbors G f a)) c else c) rest)
        \<subseteq> set (if hasNode G a then filter (\<lambda>c. c \<in> set (collectNeighbors G f a)) c else c)"
    by (rule Cons.IH)
  also have "\<dots> \<subseteq> set c" by auto
  finally show ?case by simp
qed

lemma intersectLoop_snoc:
  "intersectLoop G f c (rest @ [n]) =
     (if hasNode G n then filter (\<lambda>c. c \<in> set (collectNeighbors G f n)) (intersectLoop G f c rest)
      else intersectLoop G f c rest)"
  by (induction rest arbitrary: c) simp_all

lemma collect_subset_active_empty:
  "set (collectNeighbors G f n) \<subseteq> activeNodes G f []"
proof
  fix m assume "m \<in> set (collectNeighbors G f n)"
  then obtain e where e: "e \<in> set (validEdges G f)" "source e = m \<or> target e = m" "isNodeValid G f m"
    by (auto simp: collectNeighbors_def incidentEdges_def neighborOf_def split: if_splits)
  from e(1,2) have "m \<in> set (nodesWithValidEdges G f)"
    by (auto simp: nodesWithValidEdges_def)
  moreover from e(3) have "m \<in> set (nodeKeys G)"
    by (auto simp: isNodeValid_def nodeKeys_def split: option.splits dest: map_of_SomeD intro: rev_image_eqI)
  ultimately show "m \<in> activeNodes G f []"
    using e(3) by (simp add: activeNodes_def)
qed

lemma active_empty_props:
  assumes "n \<in> activeNodes G f []"
  shows "\<exists>a. map_of (nodes G) n = Some a \<and> minScore f \<le> score a \<and>
           (isAwardWinningOnly f \<longrightarrow> ''Award Winning'' \<in> set (genres a)) \<and>
           (\<exists>e \<in> set (edges G). (source e = n \<or> target e = n) \<and> minStrength f \<le> weight e)"
proof -
  from assms have v: "isNodeValid G f n" and w: "n \<in> set (nodesWithValidEdges G f)"
    by (auto simp: activeNodes_def)
  from w obtain e where "e \<in> set (validEdges G f)" "source e = n \<or> target e = n"
    by (auto simp: nodesWithValidEdges_def)
  then have "\<exists>e \<in> set (edges G). (source e = n \<or> target e = n) \<and> minStrength f \<le> weight e"
    by (auto simp: in_validEdges)
  moreover from v obtain a where "map_of (nodes G) n = Some a" "minScore f \<le> score a"
     "isAwardWinningOnly f \<longrightarrow> ''Award Winning'' \<in> set (genres a)"
    by (auto simp: isNodeValid_def orZero_id split: option.splits if_splits)
  ultimately show ?thesis by blast
qed

section \<open>Lemmas about the loader\<close>

lemma hasNode_iff: "hasNode G n \<longleftrightarrow> n \<in> set (nodeKeys G)"
  by (simp add: hasNode_def nodeKeys_def map_of_eq_None_iff)

lemma addNodeStep_ok: "nodesOk st \<Longrightarrow> nodesOk (addNodeStep initPos st node)"
  by (cases st) (auto simp: nodesOk_def addNodeStep_def hasNode_iff nodeKeys_def)

lemma foldl_addNodeStep_ok: "nodesOk st \<Longrightarrow> nodesOk (foldl (addNodeStep initPos) st ns)"
  by (induction ns arbitrary: st) (simp_all add: addNodeStep_ok)

lemma nodesOk_start: "nodesOk (emptyGraph, [])"
  by (simp add: nodesOk_def emptyGraph_def nodeKeys_def)

lemma addEdgeStep_nodes: "nodes (addEdgeStep G edge) = nodes G"
  by (simp add: addEdgeStep_def)

lemma foldl_addEdgeStep_nodes: "nodes (foldl addEdgeStep G es) = nodes G"
  by (induction es arbitrary: G) (simp_all add: addEdgeStep_nodes)

lemma find_append: "find P (xs @ ys) = (case find P xs of None \<Rightarrow> find P ys | Some x \<Rightarrow> Some x)"
  by (induction xs) auto

lemma addEdgeStep_ok:
  assumes "edgesOk G seen"
  shows "edgesOk (addEdgeStep G edge) (seen @ [edge])"
proof (cases "hasNode G (source edge) \<and> hasNode G (target edge) \<and> \<not> hasEdge G (source edge) (target edge)")
  case False
  then have eq: "addEdgeStep G edge = G" by (auto simp: addEdgeStep_def)
  from assms False show ?thesis
    unfolding eq edgesOk_def by (auto simp: find_append)
next
  case True
  let ?e = "\<lparr>source = source edge, target = target edge, strength = strength edge, weight = strength edge\<rparr>"
  from True have eq: "addEdgeStep G edge = G\<lparr>edges := edges G @ [?e]\<rparr>"
    by (simp add: addEdgeStep_def)
  have hn: "\<And>n. hasNode (G\<lparr>edges := edges G @ [?e]\<rparr>) n = hasNode G n"
    by (simp add: hasNode_def)
  have he: "\<And>s t. hasEdge (G\<lparr>edges := edges G @ [?e]\<rparr>) s t = (hasEdge G s t \<or> (s = source edge \<and> t = target edge))"
    by (auto simp: hasEdge_def list_ex_iff)
  from True assms have nofind: "find (sameEnds ?e) seen = None"
    by (auto simp: edgesOk_def find_None_iff sameEnds_def)
  from True have fresh: "(source edge, target edge) \<notin> (\<lambda>e. (source e, target e)) ` set (edges G)"
    by (auto simp: hasEdge_def list_ex_iff)
  show ?thesis
    unfolding eq edgesOk_def hn he using assms True nofind fresh
    by (auto simp: edgesOk_def find_append sameEnds_def split: option.splits)
qed

lemma foldl_addEdgeStep_ok:
  "edgesOk G [] \<Longrightarrow> edgesOk (foldl addEdgeStep G es) es"
proof (induction es rule: rev_induct)
  case Nil
  then show ?case by simp
next
  case (snoc x xs)
  then show ?case by (simp add: addEdgeStep_ok)
qed

lemma degree_edges_cong: "edges H = edges G \<Longrightarrow> degree H n = degree G n"
  by (simp add: degree_def)

lemma degree_zero_iff: "degree G n = 0 \<longleftrightarrow> (\<forall>e \<in> set (edges G). source e \<noteq> n \<and> target e \<noteq> n)"
  by (auto simp: degree_def filter_empty_conv)

lemma dropNode_isolated_edges: "degree G n = 0 \<Longrightarrow> edges (dropNode G n) = edges G"
  by (simp add: dropNode_def degree_zero_iff)

lemma dropNode_nodes: "nodes (dropNode G n) = filter (\<lambda>p. fst p \<noteq> n) (nodes G)"
  by (simp add: dropNode_def)

lemma dropLoop:
  "edges (foldl (\<lambda>H n. if degree H n = 0 then dropNode H n else H) G ks) = edges G \<and>
   nodes (foldl (\<lambda>H n. if degree H n = 0 then dropNode H n else H) G ks) =
     filter (\<lambda>p. \<not> (fst p \<in> set ks \<and> degree G (fst p) = 0)) (nodes G)"
proof (induction ks rule: rev_induct)
  case Nil
  then show ?case by simp
next
  case (snoc k ks)
  let ?H = "foldl (\<lambda>H n. if degree H n = 0 then dropNode H n else H) G ks"
  from snoc have e: "edges ?H = edges G"
    and n: "nodes ?H = filter (\<lambda>p. \<not> (fst p \<in> set ks \<and> degree G (fst p) = 0)) (nodes G)"
    by simp_all
  have d: "degree ?H k = degree G k" using e by (rule degree_edges_cong)
  show ?case
  proof (cases "degree G k = 0")
    case True
    then show ?thesis
      using d e n by (auto simp: dropNode_isolated_edges dropNode_nodes intro: filter_cong)
  next
    case False
    then show ?thesis
      using d e n by (auto intro: filter_cong)
  qed
qed

lemma dropIsolated_edges: "edges (dropIsolated G) = edges G"
  by (simp add: dropIsolated_def dropLoop)

lemma dropIsolated_nodes: "nodes (dropIsolated G) = filter (\<lambda>p. degree G (fst p) \<noteq> 0) (nodes G)"
  unfolding dropIsolated_def
  by (simp add: dropLoop nodeKeys_def cong: filter_cong)

lemma assignSizes_edges: "edges (assignSizes G lo hi) = edges G"
  by (simp add: assignSizes_def)

lemma assignLayout_edges: "edges (assignLayout lay G) = edges G"
  by (simp add: assignLayout_def)

lemma assignSizes_keys: "nodeKeys (assignSizes G lo hi) = nodeKeys G"
  by (simp add: assignSizes_def nodeKeys_def comp_def)

lemma assignLayout_keys: "nodeKeys (assignLayout lay G) = nodeKeys G"
  by (simp add: assignLayout_def nodeKeys_def comp_def)

lemma minOf_Min:
  assumes "ds \<noteq> []"
  shows "minOf ds = Min (set ds)"
proof (cases ds)
  case Nil
  with assms show ?thesis by simp
next
  case (Cons a r)
  then show ?thesis using Min.set_eq_fold [of a r] by (simp add: minOf_def)
qed

lemma maxOf_Max:
  assumes "ds \<noteq> []"
  shows "maxOf ds = Max (set ds)"
proof (cases ds)
  case Nil
  with assms show ?thesis by simp
next
  case (Cons a r)
  then show ?thesis using Max.set_eq_fold [of a r] by (simp add: maxOf_def)
qed

lemma loaded_edges: "edges (loadedGraph initPos lay data) = edges (prunedGraph initPos data)"
  by (simp add: loadedGraph_def load_def Let_def prunedGraph_def assignSizes_edges assignLayout_edges)

lemma loaded_keys: "nodeKeys (loadedGraph initPos lay data) = nodeKeys (prunedGraph initPos data)"
  by (simp add: loadedGraph_def load_def Let_def prunedGraph_def assignSizes_keys assignLayout_keys)

lemma loaded_degree: "degree (loadedGraph initPos lay data) n = degree (prunedGraph initPos data) n"
  by (rule degree_edges_cong) (rule loaded_edges)

lemma loaded_nodes:
  "nodes (loadedGraph initPos lay data) =
     map (\<lambda>p. (fst p,
          (snd p)\<lparr>node_size := 3 + ratioOf (degree (prunedGraph initPos data) (fst p))
                      (minOf (map (degree (prunedGraph initPos data)) (nodeKeys (prunedGraph initPos data))))
                      (maxOf (map (degree (prunedGraph initPos data)) (nodeKeys (prunedGraph initPos data)))) * 12,
                  importance := Some (ratioOf (degree (prunedGraph initPos data) (fst p))
                      (minOf (map (degree (prunedGraph initPos data)) (nodeKeys (prunedGraph initPos data))))
                      (maxOf (map (degree (prunedGraph initPos data)) (nodeKeys (prunedGraph initPos data))))),
                  pos_x := (if nodes (prunedGraph initPos data) \<noteq> [] then fst (lay (fst p)) else pos_x (snd p)),
                  pos_y := (if nodes (prunedGraph initPos data) \<noteq> [] then snd (lay (fst p)) else pos_y (snd p))\<rparr>))
       (nodes (prunedGraph initPos data))"
  by (simp add: loadedGraph_def load_def Let_def prunedGraph_def assignSizes_def assignLayout_def comp_def)

lemma pruned_nodes:
  assumes "p \<in> set (nodes (prunedGraph initPos data))"
  shows "node_id (snd p) = fst p \<and> LOAD_MIN_SCORE \<le> score (snd p) \<and> fixed (snd p) = None \<and>
         degree (prunedGraph initPos data) (fst p) \<noteq> 0 \<and>
         fst p \<in> node_id ` set (snd (foldl (addNodeStep initPos) (emptyGraph, []) (data_nodes data)))"
proof -
  let ?st = "foldl (addNodeStep initPos) (emptyGraph, []) (data_nodes data)"
  let ?G2 = "foldl addEdgeStep (fst ?st) (data_edges data)"
  have ok: "nodesOk ?st" by (simp add: foldl_addNodeStep_ok nodesOk_start)
  have n2: "nodes ?G2 = nodes (fst ?st)" by (rule foldl_addEdgeStep_nodes)
  from assms have p: "p \<in> set (nodes (fst ?st))" and d: "degree ?G2 (fst p) \<noteq> 0"
    by (simp_all add: prunedGraph_def dropIsolated_nodes n2)
  have "degree (prunedGraph initPos data) (fst p) = degree ?G2 (fst p)"
    by (rule degree_edges_cong) (simp add: prunedGraph_def dropIsolated_edges)
  moreover from p have "fst p \<in> set (nodeKeys (fst ?st))" by (simp add: nodeKeys_def)
  then have "fst p \<in> node_id ` set (snd ?st)" using ok by (simp add: nodesOk_def)
  ultimately show ?thesis using ok p d by (simp add: nodesOk_def)
qed

lemma pruned_edgesOk:
  "edgesOk (foldl addEdgeStep (fst (foldl (addNodeStep initPos) (emptyGraph, []) (data_nodes data)))
        (data_edges data)) (data_edges data)"
proof -
  let ?st = "foldl (addNodeStep initPos) (emptyGraph, []) (data_nodes data)"
  have "nodesOk ?st" by (simp add: foldl_addNodeStep_ok nodesOk_start)
  then have "edgesOk (fst ?st) []" by (simp add: nodesOk_def edgesOk_def)
  then show ?thesis by (rule foldl_addEdgeStep_ok)
qed

lemma loaded_edgesOk:
  "distinct (map (\<lambda>e. (source e, target e)) (edges (loadedGraph initPos lay data)))"
  "e \<in> set (edges (loadedGraph initPos lay data)) \<Longrightarrow>
     weight e = strength e \<and> (\<exists>d. find (sameEnds e) (data_edges data) = Some d \<and> strength d = strength e)"
  using pruned_edgesOk [of initPos data]
  by (simp_all add: loaded_edges prunedGraph_def dropIsolated_edges edgesOk_def)

lemma loaded_weightIsStrength: "weightIsStrength (loadedGraph initPos lay data)"
  by (simp add: weightIsStrength_def loaded_edgesOk(2))

lemma distinct_filter_le1:
  "distinct (map h xs) \<Longrightarrow> length (filter (\<lambda>x. h x = v) xs) \<le> Suc 0"
proof (induction xs)
  case Nil
  then show ?case by simp
next
  case (Cons a xs)
  from Cons.prems have "h a \<notin> h ` set xs" by simp
  then have "\<forall>x \<in> set xs. h x \<noteq> h a" by (metis imageI)
  then have "h a = v \<Longrightarrow> filter (\<lambda>x. h x = v) xs = []"
    by (auto simp: filter_empty_conv)
  with Cons show ?case by auto
qed

lemmas load_eval = loadedGraph_def load_def addNodeStep_def addEdgeStep_def
   emptyGraph_def hasNode_def hasEdge_def LOAD_MIN_SCORE_def dropIsolated_def nodeKeys_def degree_def dropNode_def
   minOf_def maxOf_def assignSizes_def assignLayout_def ratioOf_def Let_def

lemma ratio_bounds:
  assumes "lo \<le> d" "d \<le> hi"
  shows "0 \<le> ratioOf d lo hi \<and> ratioOf d lo hi \<le> 1"
proof (cases "hi = lo")
  case True
  with assms show ?thesis by (simp add: ratioOf_def)
next
  case False
  with assms have "lo < hi" by simp
  with assms show ?thesis by (simp add: ratioOf_def)
qed

lemma ratio_spec:
  assumes "n \<in> set (nodeKeys G)"
  shows "ratioOf (degree G n) (minDegree G) (maxDegree G) = specImportance G n"
proof -
  from assms have "minDegree G \<le> degree G n" "degree G n \<le> maxDegree G"
    by (auto simp: minDegree_def maxDegree_def intro!: Min_le Max_ge)
  then show ?thesis by (auto simp: ratioOf_def specImportance_def)
qed

section \<open>The example graphs, evaluated\<close>

lemma scenarioGraph_eq:
  "scenarioGraph =
     \<lparr>nodes =
        [(''X'', \<lparr>node_id = ''X'', score = 9, genres = [], pos_x = 0, pos_y = 0, node_size = 15,
                  importance = Some 1, fixed = None, vel_x = None, vel_y = None\<rparr>),
         (''Y'', \<lparr>node_id = ''Y'', score = 5, genres = [], pos_x = 0, pos_y = 0, node_size = 3,
                  importance = Some 0, fixed = None, vel_x = None, vel_y = None\<rparr>),
         (''Z'', \<lparr>node_id = ''Z'', score = 7, genres = [], pos_x = 0, pos_y = 0, node_size = 3,
                  importance = Some 0, fixed = None, vel_x = None, vel_y = None\<rparr>)],
      edges =
        [\<lparr>source = ''X'', target = ''Y'', strength = 0.4, weight = 0.4\<rparr>,
         \<lparr>source = ''X'', target = ''Z'', strength = 0.1, weight = 0.1\<rparr>]\<rparr>"
  by (simp add: scenarioGraph_def scenarioData_def load_eval)

lemma isolatedGraph_eq: "isolatedGraph = scenarioGraph"
  by (simp add: isolatedGraph_def isolatedData_def scenarioGraph_def scenarioData_def load_eval)

lemma isolated_nodeList:
  "map node_id (snd (load (\<lambda>n. (0, 0)) (\<lambda>k. (0, 0)) isolatedData)) = [''X'', ''Y'', ''Z'', ''W'']"
  by (simp add: isolatedData_def scenarioData_def load_eval)

lemma reversedPairGraph_edges:
  "edges reversedPairGraph =
     [\<lparr>source = ''A'', target = ''B'', strength = 0.5, weight = 0.5\<rparr>,
      \<lparr>source = ''B'', target = ''A'', strength = 0.7, weight = 0.7\<rparr>]"
  by (simp add: reversedPairGraph_def reversedPairData_def load_eval)

lemma awardGraph_eq:
  "awardGraph =
     \<lparr>nodes =
        [(''P'', \<lparr>node_id = ''P'', score = 8, genres = [''Drama'', ''Award Winning''], pos_x = 0,
                  pos_y = 0, node_size = 3, importance = Some 0, fixed = None, vel_x = None,
                  vel_y = None\<rparr>),
         (''Q'', \<lparr>node_id = ''Q'', score = 7, genres = [''Action''], pos_x = 0, pos_y = 0,
                  node_size = 3, importance = Some 0, fixed = None, vel_x = None, vel_y = None\<rparr>)],
      edges = [\<lparr>source = ''P'', target = ''Q'', strength = 0.3, weight = 0.3\<rparr>]\<rparr>"
  by (simp add: awardGraph_def awardData_def load_eval)

lemmas active_eval = activeNodes_def hasNode_def nodeKeys_def nodesWithValidEdges_def validEdges_def
  orZero_def isNodeValid_def collectNeighbors_def incidentEdges_def neighborOf_def

lemma scenarioA_eval: "activeNodes scenarioGraph filterA [] = {''X''}"
  by (simp add: scenarioGraph_eq filterA_def active_eval)

lemma scenarioB_eval: "activeNodes scenarioGraph filterB [''X''] = {''X'', ''Y''}"
  by (simp add: scenarioGraph_eq filterB_def active_eval)

lemma scenarioC_eval: "activeNodes scenarioGraph filterC [''X'', ''Z''] = {''X'', ''Z''}"
  by (auto simp add: scenarioGraph_eq filterC_def active_eval)

lemma scenarioC_single_eval: "activeNodes scenarioGraph filterC [''X''] = {''X'', ''Y'', ''Z''}"
  by (auto simp add: scenarioGraph_eq filterC_def active_eval)

lemma isolated_eval: "activeNodes isolatedGraph filterC [''W''] = {}"
  by (simp add: isolatedGraph_eq scenarioGraph_eq filterC_def active_eval)

lemma award_eval: "activeNodes awardGraph filterAward [] = {''P''}"
  by (simp add: awardGraph_eq filterAward_def active_eval)

section \<open>The visibility resolver: claims\<close>

text \<open>
  Claim C1, as amended. For every filter state and every non-empty selection all of
  whose ids are nodes of the graph, the computed active set is the running candidate
  set (the qualifying neighbour sets of the selected ids, intersected in selection
  order) united with the selection. An empty intersection is valid: it leaves the
  selected nodes alone. The graph is any graph whose edges carry their strength as
  weight, as the loaded graphs do.
\<close>

theorem active_is_candidates_and_selection:
  assumes "selectedArray \<noteq> []" and "\<forall>n \<in> set selectedArray. hasNode G n"
    and "weightIsStrength G"
  shows "activeNodes G f selectedArray = runningCandidates G f selectedArray \<union> set selectedArray"
proof (cases selectedArray)
  case Nil
  with assms show ?thesis by simp
next
  case (Cons firstId rest)
  with assms have "hasNode G firstId" and "\<forall>n \<in> set rest. hasNode G n" by auto
  then show ?thesis
    using assms(3)
    by (simp add: Cons activeNodes_def runningCandidates_def set_intersectLoop set_collectNeighbors Un_commute)
qed

text \<open>
  Scenario C: X and then Z selected, minimum strength 0. The candidates leave nothing
  but the two selected nodes.
\<close>

theorem active_is_candidates_and_selection_witness:
  "[''X'', ''Z''] \<noteq> [] \<and> hasNode scenarioGraph ''X'' \<and> hasNode scenarioGraph ''Z'' \<and>
   weightIsStrength scenarioGraph \<and>
   runningCandidates scenarioGraph filterC [''X'', ''Z''] \<union> set [''X'', ''Z''] = {''X'', ''Z''}"
proof -
  have h: "\<forall>n \<in> set [''X'', ''Z'']. hasNode scenarioGraph n"
    by (simp add: scenarioGraph_eq hasNode_def)
  have w: "weightIsStrength scenarioGraph"
    by (simp add: scenarioGraph_eq weightIsStrength_def)
  have "activeNodes scenarioGraph filterC [''X'', ''Z''] =
        runningCandidates scenarioGraph filterC [''X'', ''Z''] \<union> set [''X'', ''Z'']"
    using h w by (intro active_is_candidates_and_selection) simp_all
  then show ?thesis using h w by (simp add: scenarioC_eval)
qed

text \<open>
  Claim C1 as stated fails: W is on the node list (the search list and the discovery
  grid offer it), the loader dropped it from the graph as isolated, and with W alone
  selected the active set is empty instead of holding W.
\<close>

theorem active_absent_first_counterexample:
  "''W'' \<in> set (map node_id (snd (load (\<lambda>n. (0, 0)) (\<lambda>k. (0, 0)) isolatedData))) \<and>
   weightIsStrength isolatedGraph \<and>
   activeNodes isolatedGraph filterC [''W''] \<noteq>
     runningCandidates isolatedGraph filterC [''W''] \<union> set [''W'']"
proof -
  have "weightIsStrength isolatedGraph"
    unfolding isolatedGraph_def by (rule loaded_weightIsStrength)
  then show ?thesis by (simp add: isolated_nodeList isolated_eval)
qed

text \<open>
  Claim C2, as amended. For every filter state and every non-empty selection whose
  first id is a node of the graph, the active set contains every selected id,
  whatever the score, the genres or the award status of the selected nodes.
\<close>

theorem active_contains_selection:
  assumes "selectedArray \<noteq> []" and "hasNode G (hd selectedArray)"
  shows "set selectedArray \<subseteq> activeNodes G f selectedArray"
  using assms by (cases selectedArray) (auto simp: activeNodes_def)

text \<open>Scenario B with minimum score 10: X is selected and shown although its score is 9.\<close>

theorem active_contains_selection_witness:
  "[''X''] \<noteq> [] \<and> hasNode scenarioGraph (hd [''X'']) \<and>
   set [''X''] \<subseteq> activeNodes scenarioGraph (filterB\<lparr>minScore := 10\<rparr>) [''X'']"
proof -
  have h: "hasNode scenarioGraph (hd [''X''])"
    by (simp add: scenarioGraph_eq hasNode_def)
  show ?thesis
    using h active_contains_selection [of "[''X'']" scenarioGraph "filterB\<lparr>minScore := 10\<rparr>"]
    by simp
qed

text \<open>
  Claim C2 as stated fails on the selection that holds only the dropped node W: the
  active set is empty.
\<close>

theorem active_misses_selection_counterexample:
  "\<not> set [''W''] \<subseteq> activeNodes isolatedGraph filterC [''W'']"
  by (simp add: isolated_eval)

text \<open>
  Claim C3, as amended. On the three-node dataset with minimum score 6, minimum
  strength 0.2, no genre or award restriction and nothing selected, the active set is
  X alone: X passes the score filter and is an end of the edge X-Y, whose strength 0.4
  passes the strength filter. The empty-selection branch does not ask that the other
  end of the edge be filter-valid.
\<close>

theorem scenarioA_active_is_X:
  "activeNodes (loadedGraph (\<lambda>n. (0, 0)) (\<lambda>k. (0, 0)) scenarioData) filterA [] = {''X''}"
  using scenarioA_eval by (simp add: scenarioGraph_def)

text \<open>Claim C3 as stated fails: the active set of scenario A is not empty.\<close>

theorem scenarioA_not_empty_counterexample:
  "activeNodes (loadedGraph (\<lambda>n. (0, 0)) (\<lambda>k. (0, 0)) scenarioData) filterA [] \<noteq> {}"
  using scenarioA_eval by (simp add: scenarioGraph_def)

text \<open>
  Claim C4. With the award switch on and nothing selected, every node of the active
  set of a loaded graph has the award tag among its genres, has a score of at least
  the minimum score, and is an end of an edge whose strength is at least the minimum
  strength.
\<close>

theorem award_only_active_nodes:
  assumes "isAwardWinningOnly f"
    and "n \<in> activeNodes (loadedGraph initPos lay data) f []"
  shows "\<exists>a. map_of (nodes (loadedGraph initPos lay data)) n = Some a \<and>
           ''Award Winning'' \<in> set (genres a) \<and> minScore f \<le> score a \<and>
           (\<exists>e \<in> set (edges (loadedGraph initPos lay data)).
               (source e = n \<or> target e = n) \<and> minStrength f \<le> strength e)"
proof -
  from active_empty_props [OF assms(2)] assms(1)
  obtain a e where a: "map_of (nodes (loadedGraph initPos lay data)) n = Some a"
      "minScore f \<le> score a" "''Award Winning'' \<in> set (genres a)"
    and e: "e \<in> set (edges (loadedGraph initPos lay data))" "source e = n \<or> target e = n"
      "minStrength f \<le> weight e"
    by auto
  from loaded_edgesOk(2) [OF e(1)] have "weight e = strength e" by simp
  with a e show ?thesis by auto
qed

theorem award_only_active_nodes_witness:
  "isAwardWinningOnly filterAward \<and> ''P'' \<in> activeNodes awardGraph filterAward [] \<and>
   (\<exists>a. map_of (nodes awardGraph) ''P'' = Some a \<and>
        ''Award Winning'' \<in> set (genres a) \<and> minScore filterAward \<le> score a \<and>
        (\<exists>e \<in> set (edges awardGraph).
            (source e = ''P'' \<or> target e = ''P'') \<and> minStrength filterAward \<le> strength e))"
proof -
  have h1: "isAwardWinningOnly filterAward" by (simp add: filterAward_def)
  have h2: "''P'' \<in> activeNodes (loadedGraph (\<lambda>n. (0, 0)) (\<lambda>k. (0, 0)) awardData) filterAward []"
    using award_eval by (simp add: awardGraph_def)
  from award_only_active_nodes [OF h1 h2] h1 h2 show ?thesis
    by (simp add: awardGraph_def)
qed

text \<open>
  Claim C5, intersection monotonicity. For every filter state, every selection S and
  every id n outside S, the active set of S with n appended lies within the active set
  of S united with n.
\<close>

theorem active_monotone:
  assumes "n \<notin> set S"
  shows "activeNodes G f (S @ [n]) \<subseteq> activeNodes G f S \<union> {n}"
proof (cases S)
  case Nil
  then show ?thesis
    using collect_subset_active_empty [of G f n]
    by (auto simp: activeNodes_def [of G f "[n]"])
next
  case (Cons firstId rest)
  then show ?thesis
    by (auto simp: activeNodes_def intersectLoop_snoc)
qed

theorem active_monotone_witness:
  "''Z'' \<notin> set [''X''] \<and>
   activeNodes scenarioGraph filterC ([''X''] @ [''Z'']) = {''X'', ''Z''} \<and>
   activeNodes scenarioGraph filterC [''X''] = {''X'', ''Y'', ''Z''} \<and>
   activeNodes scenarioGraph filterC ([''X''] @ [''Z'']) \<subseteq> activeNodes scenarioGraph filterC [''X''] \<union> {''Z''}"
proof -
  have h: "''Z'' \<notin> set [''X'']" by simp
  from active_monotone [OF h, of scenarioGraph filterC] h show ?thesis
    using scenarioC_eval scenarioC_single_eval by simp
qed

section \<open>The loader: claims\<close>

text \<open>
  Claim C6. After the load every node of the graph has a score of at least
  \<open>LOAD_MIN_SCORE\<close> and a degree of at least 1; its importance is its degree minus the
  minimal degree over the maximal degree minus the minimal degree, taken over the nodes
  that survived, and 0 when all degrees are equal; its size is 3 plus 12 times its
  importance and lies between 3 and 15.
\<close>

theorem load_nodes_scored_connected_sized:
  assumes "(k, a) \<in> set (nodes (loadedGraph initPos lay data))"
  shows "LOAD_MIN_SCORE \<le> score a \<and> 1 \<le> degree (loadedGraph initPos lay data) k \<and>
         importance a = Some (specImportance (loadedGraph initPos lay data) k) \<and>
         node_size a = 3 + specImportance (loadedGraph initPos lay data) k * 12 \<and>
         3 \<le> node_size a \<and> node_size a \<le> 15"
proof -
  let ?P = "prunedGraph initPos data"
  let ?G = "loadedGraph initPos lay data"
  let ?ds = "map (degree ?P) (nodeKeys ?P)"
  from assms obtain p where p: "p \<in> set (nodes ?P)" "fst p = k"
    and sz: "node_size a = 3 + ratioOf (degree ?P k) (minOf ?ds) (maxOf ?ds) * 12"
    and im: "importance a = Some (ratioOf (degree ?P k) (minOf ?ds) (maxOf ?ds))"
    and sc: "score a = score (snd p)"
    by (auto simp: loaded_nodes)
  from p have kin: "k \<in> set (nodeKeys ?P)" by (auto simp: nodeKeys_def)
  then have ne: "?ds \<noteq> []" by auto
  have dsG: "map (degree ?G) (nodeKeys ?G) = ?ds"
    by (simp add: loaded_keys loaded_degree)
  have lo: "minOf ?ds = minDegree ?G" using ne by (simp add: minOf_Min minDegree_def dsG)
  have hi: "maxOf ?ds = maxDegree ?G" using ne by (simp add: maxOf_Max maxDegree_def dsG)
  have dg: "degree ?P k = degree ?G k" by (simp add: loaded_degree)
  have r: "ratioOf (degree ?P k) (minOf ?ds) (maxOf ?ds) = specImportance ?G k"
    unfolding lo hi dg by (rule ratio_spec) (simp add: loaded_keys kin)
  have "Min (set ?ds) \<le> degree ?P k" "degree ?P k \<le> Max (set ?ds)"
    using kin by (auto intro!: Min_le Max_ge)
  then have b: "0 \<le> specImportance ?G k \<and> specImportance ?G k \<le> 1"
    using ratio_bounds [of "minOf ?ds" "degree ?P k" "maxOf ?ds"] ne r
    by (simp add: minOf_Min maxOf_Max)
  from pruned_nodes [OF p(1)] p(2) sc have "LOAD_MIN_SCORE \<le> score a" "degree ?P k \<noteq> 0" by simp_all
  then show ?thesis using sz im r b dg by simp
qed

text \<open>The node X of the scenario dataset: score 9, degree 2, importance 1, size 15.\<close>

theorem load_nodes_scored_connected_sized_witness:
  "(''X'', \<lparr>node_id = ''X'', score = 9, genres = [], pos_x = 0, pos_y = 0, node_size = 15,
            importance = Some 1, fixed = None, vel_x = None, vel_y = None\<rparr>)
     \<in> set (nodes scenarioGraph) \<and>
   degree scenarioGraph ''X'' = 2 \<and> specImportance scenarioGraph ''X'' = 1"
proof -
  let ?a = "\<lparr>node_id = ''X'', score = 9, genres = [], pos_x = 0, pos_y = 0, node_size = 15,
            importance = Some 1, fixed = None, vel_x = None, vel_y = None\<rparr>"
  have h: "(''X'', ?a) \<in> set (nodes (loadedGraph (\<lambda>n. (0, 0)) (\<lambda>k. (0, 0)) scenarioData))"
    using scenarioGraph_eq by (simp add: scenarioGraph_def)
  have d: "degree scenarioGraph ''X'' = 2"
    by (simp add: scenarioGraph_eq degree_def)
  from load_nodes_scored_connected_sized [OF h] h d show ?thesis
    by (simp add: scenarioGraph_def)
qed

text \<open>
  Claim C7, as amended. After the load there is at most one edge from any id to any
  other: when the dataset declares the same source and target more than once, the
  first declaration is the edge of the graph and the later ones are ignored. (A
  declaration in the opposite orientation is another edge.)
\<close>

theorem load_one_edge_per_ordered_pair:
  "length (edgesFromTo (loadedGraph initPos lay data) s t) \<le> 1 \<and>
   (\<forall>e \<in> set (edgesFromTo (loadedGraph initPos lay data) s t).
      \<exists>d. find (\<lambda>d. source d = s \<and> target d = t) (data_edges data) = Some d \<and> strength e = strength d)"
proof -
  have "length (filter (\<lambda>e. (source e, target e) = (s, t)) (edges (loadedGraph initPos lay data))) \<le> Suc 0"
    using loaded_edgesOk(1) by (rule distinct_filter_le1)
  then have "length (edgesFromTo (loadedGraph initPos lay data) s t) \<le> 1"
    by (simp add: edgesFromTo_def)
  moreover have "\<exists>d. find (\<lambda>d. source d = s \<and> target d = t) (data_edges data) = Some d \<and> strength e = strength d"
    if "e \<in> set (edgesFromTo (loadedGraph initPos lay data) s t)" for e
  proof -
    from that have e: "e \<in> set (edges (loadedGraph initPos lay data))" "source e = s" "target e = t"
      by (simp_all add: edgesFromTo_def)
    from loaded_edgesOk(2) [OF e(1)] e(2,3) show ?thesis
      by (auto simp: sameEnds_def [abs_def])
  qed
  ultimately show ?thesis by blast
qed

text \<open>
  The dataset declares A to B with strength 0.5 and again with strength 0.9: the graph
  has the one edge of strength 0.5.
\<close>

theorem load_one_edge_per_ordered_pair_witness:
  "edgesFromTo reversedPairGraph ''A'' ''B'' =
     [\<lparr>source = ''A'', target = ''B'', strength = 0.5, weight = 0.5\<rparr>] \<and>
   length (edgesFromTo reversedPairGraph ''A'' ''B'') \<le> 1 \<and>
   find (\<lambda>d. source d = ''A'' \<and> target d = ''B'') (data_edges reversedPairData) =
     Some \<lparr>source = ''A'', target = ''B'', strength = 0.5\<rparr>"
  using load_one_edge_per_ordered_pair [of "\<lambda>n. (0, 0)" "\<lambda>k. (0, 0)" reversedPairData "''A''" "''B''"]
  by (simp add: edgesFromTo_def reversedPairGraph_edges reversedPairData_def)

text \<open>
  Claim C7 as stated fails: the dataset declares the pair A, B from A to B and from B
  to A, and the graph has both edges.
\<close>

theorem load_two_edges_per_pair_counterexample:
  "\<not> length (edgesBetween reversedPairGraph ''A'' ''B'') \<le> 1"
  by (simp add: edgesBetween_def reversedPairGraph_edges)

section \<open>Lemmas about the gestures\<close>

lemma exceedsThreshold_iff:
  "exceedsThreshold sx sy ev \<longleftrightarrow> (clientX ev - sx)\<^sup>2 + (clientY ev - sy)\<^sup>2 > 25"
proof -
  have "sqrt 25 = 5" by (rule real_sqrt_unique) simp_all
  then have "5 < sqrt v \<longleftrightarrow> 25 < v" for v
    using real_sqrt_less_iff [of 25 v] by simp
  then show ?thesis by (simp add: exceedsThreshold_def)
qed

text \<open>The toggle flips the membership of the node and of no other id.\<close>

lemma toggleSelection_member:
  "m \<in> set (toggleSelection sel n) \<longleftrightarrow> (if m = n then n \<notin> set sel else m \<in> set sel)"
  by (auto simp: toggleSelection_def)

lemma map_of_update:
  "map_of (map (\<lambda>p. if fst p = n then (fst p, u (snd p)) else p) xs) k =
     (if k = n then map_option u (map_of xs k) else map_of xs k)"
  by (induction xs) auto

lemma updateNodeAttributes_Inr:
  assumes "hasNode G n"
  shows "\<exists>H. updateNodeAttributes G n u = Inr H \<and> edges H = edges G \<and>
           (\<forall>k. map_of (nodes H) k = (if k = n then map_option u (map_of (nodes G) k) else map_of (nodes G) k))"
  using assms by (simp add: updateNodeAttributes_def map_of_update)

lemma updateNodeAttributes_absent:
  "\<not> hasNode G n \<Longrightarrow> updateNodeAttributes G n u = Inl NotFoundGraphError"
  by (simp add: updateNodeAttributes_def)

text \<open>Events on a document without the listeners change nothing.\<close>

lemma dispatchMove_detached: "\<not> listening st \<Longrightarrow> dispatchMove toGraph st ev = Inr st"
  by (simp add: dispatchMove_def)

lemma runMoves_detached: "\<not> listening st \<Longrightarrow> runMoves toGraph st moves = Inr st"
  by (induction moves) (simp_all add: dispatchMove_detached)

lemma dispatchUp_detached: "\<not> listening st \<Longrightarrow> dispatchUp st = Inr st"
  by (simp add: dispatchUp_def)

text \<open>Moves within the threshold, before the drag began.\<close>

lemma move_within:
  assumes "dragInfoRef st = Some d" "\<not> isDragging d"
    and "\<not> exceedsThreshold (startX d) (startY d) ev"
  shows "handleMouseMove toGraph st ev = Inr st"
  using assms by (simp add: handleMouseMove_def)

lemma dispatchMove_within:
  assumes "dragInfoRef st = Some d" "\<not> isDragging d"
    and "\<not> exceedsThreshold (startX d) (startY d) ev"
  shows "dispatchMove toGraph st ev = Inr st"
  using move_within [OF assms] by (simp add: dispatchMove_def afterHandler_def)

lemma runMoves_within:
  assumes "dragInfoRef st = Some d" "\<not> isDragging d"
    and "\<forall>ev \<in> set moves. \<not> exceedsThreshold (startX d) (startY d) ev"
  shows "runMoves toGraph st moves = Inr st"
  using assms by (induction moves) (simp_all add: dispatchMove_within)

text \<open>The two blocks of the move handler on a node of the graph.\<close>

lemma beginDrag_Inr:
  assumes "dragInfoRef st = Some d" "map_of (nodes (graph st)) (nodeId d) = Some a"
  shows "\<exists>st1. beginDrag st d = Inr st1 \<and> dragInfoRef st1 = Some (d\<lparr>isDragging := True\<rparr>) \<and>
           tooltip st1 = None \<and> listening st1 = listening st \<and>
           selectedNodes st1 = selectedNodes st \<and>
           focusLog st1 = focusLog st \<and> nodeList st1 = nodeList st \<and>
           (\<exists>a1. map_of (nodes (graph st1)) (nodeId d) = Some a1 \<and>
                 fixed a1 = (case fixed a of None \<Rightarrow> Some True | Some b \<Rightarrow> Some b))"
proof (cases "fixed a")
  case (Some b)
  with assms show ?thesis by (simp add: beginDrag_def hasNodeAttributeFixed_def)
next
  case None
  from assms(2) have hn: "hasNode (graph st) (nodeId d)" by (simp add: hasNode_def)
  from updateNodeAttributes_Inr [OF hn, of "\<lambda>a. a\<lparr>fixed := Some True\<rparr>"]
  obtain H where H: "updateNodeAttributes (graph st) (nodeId d) (\<lambda>a. a\<lparr>fixed := Some True\<rparr>) = Inr H"
    "map_of (nodes H) (nodeId d) = map_option (\<lambda>a. a\<lparr>fixed := Some True\<rparr>) (map_of (nodes (graph st)) (nodeId d))"
    by auto
  with assms None show ?thesis by (simp add: beginDrag_def hasNodeAttributeFixed_def)
qed

lemma writePosition_Inr:
  assumes "map_of (nodes (graph st)) (nodeId d) = Some a"
  shows "\<exists>st1. writePosition toGraph st d ev = Inr st1 \<and> dragInfoRef st1 = dragInfoRef st \<and>
           tooltip st1 = tooltip st \<and> listening st1 = listening st \<and>
           selectedNodes st1 = selectedNodes st \<and>
           focusLog st1 = focusLog st \<and> nodeList st1 = nodeList st \<and>
           (\<exists>a1. map_of (nodes (graph st1)) (nodeId d) = Some a1 \<and> fixed a1 = fixed a)"
proof -
  let ?u = "\<lambda>a. a\<lparr>pos_x := fst (toGraph ev), pos_y := snd (toGraph ev), vel_x := Some 0, vel_y := Some 0\<rparr>"
  from assms have hn: "hasNode (graph st) (nodeId d)" by (simp add: hasNode_def)
  from updateNodeAttributes_Inr [OF hn, of ?u]
  obtain H where H: "updateNodeAttributes (graph st) (nodeId d) ?u = Inr H"
      "map_of (nodes H) (nodeId d) = map_option ?u (map_of (nodes (graph st)) (nodeId d))"
    by auto
  with assms show ?thesis by (simp add: writePosition_def)
qed

text \<open>The move that begins the drag: the node is pinned and the tooltip cleared.\<close>

lemma move_begin:
  assumes "dragInfoRef st = Some d" "\<not> isDragging d"
    and "exceedsThreshold (startX d) (startY d) ev"
    and "map_of (nodes (graph st)) (nodeId d) = Some a"
  shows "\<exists>st1. handleMouseMove toGraph st ev = Inr st1 \<and>
           dragInfoRef st1 = Some (d\<lparr>isDragging := True\<rparr>) \<and>
           tooltip st1 = None \<and> listening st1 = listening st \<and>
           selectedNodes st1 = selectedNodes st \<and>
           focusLog st1 = focusLog st \<and> nodeList st1 = nodeList st \<and>
           (\<exists>a1. map_of (nodes (graph st1)) (nodeId d) = Some a1 \<and>
                 fixed a1 = (case fixed a of None \<Rightarrow> Some True | Some b \<Rightarrow> Some b))"
proof -
  from beginDrag_Inr [OF assms(1,4)] obtain s a0 where s: "beginDrag st d = Inr s"
    "dragInfoRef s = Some (d\<lparr>isDragging := True\<rparr>)" "tooltip s = None" "listening s = listening st"
    "selectedNodes s = selectedNodes st" "focusLog s = focusLog st" "nodeList s = nodeList st"
    "map_of (nodes (graph s)) (nodeId d) = Some a0"
    "fixed a0 = (case fixed a of None \<Rightarrow> Some True | Some b \<Rightarrow> Some b)"
    by auto
  from writePosition_Inr [of s "d\<lparr>isDragging := True\<rparr>" a0 toGraph ev] s(8)
  obtain s1 a1 where s1: "writePosition toGraph s (d\<lparr>isDragging := True\<rparr>) ev = Inr s1"
    "dragInfoRef s1 = dragInfoRef s" "tooltip s1 = tooltip s" "listening s1 = listening s"
    "selectedNodes s1 = selectedNodes s" "focusLog s1 = focusLog s" "nodeList s1 = nodeList s"
    "map_of (nodes (graph s1)) (nodeId d) = Some a1" "fixed a1 = fixed a0"
    by auto
  from assms(1-3) s s1 show ?thesis
    by (simp add: handleMouseMove_def)
qed

text \<open>A move of a drag, the one that begins it or a later one.\<close>

lemma move_drag:
  assumes "dragInfoRef st = Some d" "hasNode (graph st) (nodeId d)"
    and "isDragging d \<or> exceedsThreshold (startX d) (startY d) ev"
  shows "\<exists>st1. handleMouseMove toGraph st ev = Inr st1 \<and>
           dragInfoRef st1 = Some (d\<lparr>isDragging := True\<rparr>) \<and>
           tooltip st1 = (if isDragging d then tooltip st else None) \<and>
           listening st1 = listening st \<and>
           hasNode (graph st1) (nodeId d) \<and> selectedNodes st1 = selectedNodes st \<and>
           focusLog st1 = focusLog st \<and> nodeList st1 = nodeList st"
proof -
  from assms(2) obtain a where a: "map_of (nodes (graph st)) (nodeId d) = Some a"
    by (auto simp: hasNode_def)
  show ?thesis
  proof (cases "isDragging d")
    case True
    then have d: "d\<lparr>isDragging := True\<rparr> = d" by simp
    from writePosition_Inr [OF a, of toGraph ev] True assms(1) show ?thesis
      by (auto simp: handleMouseMove_def d hasNode_def)
  next
    case False
    with assms(3) have ex: "exceedsThreshold (startX d) (startY d) ev" by simp
    from move_begin [OF assms(1) False ex a, of toGraph] False show ?thesis
      by (auto simp: hasNode_def)
  qed
qed

text \<open>
  A drag that begins while no tooltip is shown: the listeners stay attached through
  all its moves.
\<close>

lemma runMoves_drag:
  assumes "listening st" "tooltip st = None"
    and "dragInfoRef st = Some d" "hasNode (graph st) (nodeId d)"
    and "isDragging d \<or> (\<exists>ev \<in> set moves. exceedsThreshold (startX d) (startY d) ev)"
  shows "\<exists>st1. runMoves toGraph st moves = Inr st1 \<and> listening st1 \<and> tooltip st1 = None \<and>
           dragInfoRef st1 = Some (d\<lparr>isDragging := True\<rparr>) \<and>
           hasNode (graph st1) (nodeId d) \<and> selectedNodes st1 = selectedNodes st \<and>
           focusLog st1 = focusLog st \<and> nodeList st1 = nodeList st"
  using assms
proof (induction moves arbitrary: st d)
  case Nil
  then have "d\<lparr>isDragging := True\<rparr> = d" by simp
  with Nil show ?case by simp
next
  case (Cons ev moves)
  show ?case
  proof (cases "isDragging d \<or> exceedsThreshold (startX d) (startY d) ev")
    case True
    from move_drag [OF Cons.prems(3,4) True, of toGraph]
    obtain s where s: "handleMouseMove toGraph st ev = Inr s"
      "dragInfoRef s = Some (d\<lparr>isDragging := True\<rparr>)" "tooltip s = None" "listening s"
      "hasNode (graph s) (nodeId d)"
      "selectedNodes s = selectedNodes st" "focusLog s = focusLog st" "nodeList s = nodeList st"
      using Cons.prems(1,2) by auto
    then have "dispatchMove toGraph st ev = Inr s"
      using Cons.prems(1,2) by (simp add: dispatchMove_def afterHandler_def)
    with Cons.IH [of s "d\<lparr>isDragging := True\<rparr>"] s
    show ?thesis by auto
  next
    case False
    then have "dispatchMove toGraph st ev = Inr st"
      using Cons.prems(3) by (simp add: dispatchMove_within)
    moreover from False Cons.prems(5)
    have "isDragging d \<or> (\<exists>ev \<in> set moves. exceedsThreshold (startX d) (startY d) ev)" by auto
    ultimately show ?thesis using Cons.IH [OF Cons.prems(1-4)] by simp
  qed
qed

text \<open>
  A drag that begins while a tooltip is shown: the move that begins it clears the
  tooltip, the listeners are removed, and the later moves are not handled.
\<close>

lemma runMoves_drag_tooltip:
  assumes "listening st" "tooltip st \<noteq> None"
    and "dragInfoRef st = Some d" "\<not> isDragging d"
    and "map_of (nodes (graph st)) (nodeId d) = Some a"
    and "\<exists>ev \<in> set moves. exceedsThreshold (startX d) (startY d) ev"
  shows "\<exists>st1. runMoves toGraph st moves = Inr st1 \<and> \<not> listening st1 \<and>
           dragInfoRef st1 = Some (d\<lparr>isDragging := True\<rparr>) \<and>
           selectedNodes st1 = selectedNodes st \<and> focusLog st1 = focusLog st \<and>
           (\<exists>a1. map_of (nodes (graph st1)) (nodeId d) = Some a1 \<and>
                 fixed a1 = (case fixed a of None \<Rightarrow> Some True | Some b \<Rightarrow> Some b))"
  using assms(6)
proof (induction moves)
  case Nil
  then show ?case by simp
next
  case (Cons ev moves)
  show ?case
  proof (cases "exceedsThreshold (startX d) (startY d) ev")
    case True
    from move_begin [OF assms(3,4) True assms(5), of toGraph]
    obtain s a1 where s: "handleMouseMove toGraph st ev = Inr s"
      "dragInfoRef s = Some (d\<lparr>isDragging := True\<rparr>)" "tooltip s = None"
      "selectedNodes s = selectedNodes st" "focusLog s = focusLog st"
      "map_of (nodes (graph s)) (nodeId d) = Some a1"
      "fixed a1 = (case fixed a of None \<Rightarrow> Some True | Some b \<Rightarrow> Some b)"
      by auto
    then have "dispatchMove toGraph st ev = Inr (effectCleanup s)"
      using assms(1,2) by (auto simp: dispatchMove_def afterHandler_def)
    moreover have "runMoves toGraph (effectCleanup s) moves = Inr (effectCleanup s)"
      by (rule runMoves_detached) (simp add: effectCleanup_def)
    ultimately show ?thesis using s by (simp add: effectCleanup_def)
  next
    case False
    then have "dispatchMove toGraph st ev = Inr st"
      using assms(3,4) by (simp add: dispatchMove_within)
    moreover from False Cons.prems
    have "\<exists>ev \<in> set moves. exceedsThreshold (startX d) (startY d) ev" by simp
    ultimately show ?thesis using Cons.IH by simp
  qed
qed

text \<open>Pointer-up.\<close>

lemma up_drag:
  assumes "dragInfoRef st = Some d" "isDragging d" "hasNode (graph st) (nodeId d)"
  shows "\<exists>st2. handleMouseUp st = Inr st2 \<and> dragInfoRef st2 = None \<and>
           tooltip st2 = tooltip st \<and>
           selectedNodes st2 = selectedNodes st \<and> focusLog st2 = focusLog st \<and>
           (\<exists>a2. map_of (nodes (graph st2)) (nodeId d) = Some a2 \<and> fixed a2 = None)"
proof -
  from updateNodeAttributes_Inr [OF assms(3), of "\<lambda>a. a\<lparr>fixed := None\<rparr>"]
  obtain H where H: "updateNodeAttributes (graph st) (nodeId d) (\<lambda>a. a\<lparr>fixed := None\<rparr>) = Inr H"
      "map_of (nodes H) (nodeId d) = map_option (\<lambda>a. a\<lparr>fixed := None\<rparr>) (map_of (nodes (graph st)) (nodeId d))"
    by auto
  with assms show ?thesis by (auto simp: handleMouseUp_def hasNode_def)
qed

lemma find_by_id:
  assumes "n \<in> node_id ` set nl"
  shows "\<exists>t. find (\<lambda>t. node_id t = n) nl = Some t \<and> node_id t = n"
proof (cases "find (\<lambda>t. node_id t = n) nl")
  case None
  with assms show ?thesis by (auto simp: find_None_iff)
next
  case (Some t)
  then show ?thesis by (auto dest: find_Some_iff [THEN iffD1])
qed

lemma up_click:
  assumes "dragInfoRef st = Some d" "\<not> isDragging d"
    and "map_of (nodes (graph st)) (nodeId d) = Some a" "node_id a = nodeId d"
    and "nodeId d \<in> node_id ` set (nodeList st)"
  shows "handleMouseUp st =
           Inr (st\<lparr>selectedNodes := toggleSelection (selectedNodes st) (nodeId d),
                   focusLog := focusLog st @ [nodeId d],
                   dragInfoRef := None, cursor := ''default'', listening := False\<rparr>)"
proof -
  from find_by_id [OF assms(5)] obtain t where
    "find (\<lambda>t. node_id t = nodeId d) (nodeList st) = Some t" "node_id t = nodeId d" by auto
  with assms(1-4) show ?thesis
    by (simp add: handleMouseUp_def getNodeAttributes_def handleGraphToggle_def handleFocus_def hasNode_def)
qed

lemma initial_consistent: "consistent (initialState initPos lay data)"
proof -
  have "node_id (snd q) = fst q \<and> fst q \<in> node_id ` set (snd (load initPos lay data))"
    if "q \<in> set (nodes (loadedGraph initPos lay data))" for q
  proof -
    from that obtain p where p: "p \<in> set (nodes (prunedGraph initPos data))" "fst q = fst p"
       "node_id (snd q) = node_id (snd p)"
      by (auto simp: loaded_nodes)
    from pruned_nodes [OF p(1)] p(2,3) show ?thesis
      by (simp add: load_def Let_def)
  qed
  then show ?thesis by (simp add: consistent_def initialState_def loadedGraph_def)
qed

text \<open>The handlers on a node that is not in the graph.\<close>

lemma hasNode_dropNode: "\<not> hasNode (dropNode G n) n"
  by (auto simp: hasNode_def dropNode_def map_of_eq_None_iff)

lemma move_absent:
  assumes "dragInfoRef st = Some d" "\<not> hasNode (graph st) (nodeId d)"
    and "isDragging d \<or> exceedsThreshold (startX d) (startY d) ev"
  shows "handleMouseMove toGraph st ev = Inl NotFoundGraphError"
  using assms
  by (auto simp: handleMouseMove_def beginDrag_def hasNodeAttributeFixed_def writePosition_def
      updateNodeAttributes_def hasNode_def)

lemma up_click_absent:
  assumes "dragInfoRef st = Some d" "\<not> isDragging d" "\<not> hasNode (graph st) (nodeId d)"
  shows "handleMouseUp st = Inl NotFoundGraphError"
  using assms by (simp add: handleMouseUp_def getNodeAttributes_def hasNode_def)

lemma up_drag_absent:
  assumes "dragInfoRef st = Some d" "isDragging d" "\<not> hasNode (graph st) (nodeId d)"
  shows "handleMouseUp st = Inr (st\<lparr>dragInfoRef := None, cursor := ''default'', listening := False\<rparr>)"
  using assms by (simp add: handleMouseUp_def)

text \<open>The handlers keep the state consistent.\<close>

lemma consistent_iff:
  "consistent st \<longleftrightarrow>
     (\<forall>x \<in> set (map (\<lambda>p. (fst p, node_id (snd p))) (nodes (graph st))).
         snd x = fst x \<and> fst x \<in> node_id ` set (nodeList st))"
  by (simp add: consistent_def)

lemma updateNodeAttributes_ids:
  assumes "updateNodeAttributes G n u = Inr H" and "\<And>a. node_id (u a) = node_id a"
  shows "map (\<lambda>p. (fst p, node_id (snd p))) (nodes H) = map (\<lambda>p. (fst p, node_id (snd p))) (nodes G)"
  using assms by (auto simp: updateNodeAttributes_def split: if_splits)

lemma handleMouseMove_ids:
  assumes "handleMouseMove toGraph st ev = Inr st1"
  shows "nodeList st1 = nodeList st \<and>
         map (\<lambda>p. (fst p, node_id (snd p))) (nodes (graph st1)) =
         map (\<lambda>p. (fst p, node_id (snd p))) (nodes (graph st))"
  using assms
  by (auto simp: handleMouseMove_def beginDrag_def writePosition_def
        split: option.splits if_splits sum.splits
        dest!: updateNodeAttributes_ids)

lemma handleMouseUp_ids:
  assumes "handleMouseUp st = Inr st1"
  shows "nodeList st1 = nodeList st \<and>
         map (\<lambda>p. (fst p, node_id (snd p))) (nodes (graph st1)) =
         map (\<lambda>p. (fst p, node_id (snd p))) (nodes (graph st))"
  using assms
  by (auto simp: handleMouseUp_def handleFocus_def handleGraphToggle_def
        split: option.splits if_splits sum.splits
        dest!: updateNodeAttributes_ids)

lemma handleMouseMove_consistent:
  "consistent st \<Longrightarrow> handleMouseMove toGraph st ev = Inr st1 \<Longrightarrow> consistent st1"
  unfolding consistent_iff by (drule handleMouseMove_ids) simp

lemma handleMouseUp_consistent:
  "consistent st \<Longrightarrow> handleMouseUp st = Inr st1 \<Longrightarrow> consistent st1"
  unfolding consistent_iff by (drule handleMouseUp_ids) simp

lemma afterHandler_consistent: "consistent st1 \<Longrightarrow> consistent (afterHandler st st1)"
  by (simp add: consistent_def afterHandler_def effectCleanup_def)

lemma dispatchMove_consistent:
  "consistent st \<Longrightarrow> dispatchMove toGraph st ev = Inr st1 \<Longrightarrow> consistent st1"
  by (auto simp: dispatchMove_def split: if_splits sum.splits
      dest: handleMouseMove_consistent intro: afterHandler_consistent)

lemma dispatchUp_consistent:
  "consistent st \<Longrightarrow> dispatchUp st = Inr st1 \<Longrightarrow> consistent st1"
  by (auto simp: dispatchUp_def split: if_splits sum.splits
      dest: handleMouseUp_consistent intro: afterHandler_consistent)

lemma runMoves_consistent:
  "consistent st \<Longrightarrow> runMoves toGraph st moves = Inr st1 \<Longrightarrow> consistent st1"
  by (induction moves arbitrary: st) (auto split: sum.splits dest: dispatchMove_consistent)

lemma gesture_consistent:
  assumes "consistent st" "gesture toGraph st n down moves = Inr st2"
  shows "consistent st2"
proof -
  have "consistent (downNode st n down)"
    using assms(1) by (simp add: consistent_def downNode_def)
  with assms(2) show ?thesis
    by (auto simp: gesture_def split: sum.splits dest: runMoves_consistent dispatchUp_consistent)
qed

text \<open>
  A click: no move of the gesture is beyond the threshold. Pointer-up flips the
  membership of the node in the selection and of no other id, a camera animation on
  the node starts, and no step of the gesture writes to the graph.
\<close>

lemma gesture_click:
  assumes "consistent st" and "hasNode (graph st) n" and "down_button down = Some 0"
    and "\<forall>ev \<in> set moves. \<not> exceedsThreshold (down_x down) (down_y down) ev"
  shows "\<exists>st2. gesture toGraph st n down moves = Inr st2 \<and> dragInfoRef st2 = None \<and>
           (n \<in> set (selectedNodes st2) \<longleftrightarrow> n \<notin> set (selectedNodes st)) \<and>
           (\<forall>m. m \<noteq> n \<longrightarrow> (m \<in> set (selectedNodes st2) \<longleftrightarrow> m \<in> set (selectedNodes st))) \<and>
           focusLog st2 = focusLog st @ [n] \<and> graph st2 = graph st \<and>
           (\<forall>k \<le> length moves.
              runMoves toGraph (downNode st n down) (take k moves) = Inr (downNode st n down))"
proof -
  let ?d = "\<lparr>nodeId = n, startX = down_x down, startY = down_y down, isDragging = False\<rparr>"
  let ?s = "downNode st n down"
  from assms(3) have s: "?s = st\<lparr>dragInfoRef := Some ?d, listening := True\<rparr>"
    by (simp add: downNode_def)
  then have dr: "dragInfoRef ?s = Some ?d" by simp
  from assms(4) have w: "\<forall>ev \<in> set moves. \<not> exceedsThreshold (startX ?d) (startY ?d) ev" by simp
  have r: "runMoves toGraph ?s ms = Inr ?s" if "set ms \<subseteq> set moves" for ms
    using dr _ _ by (rule runMoves_within) (use w that in auto)
  from assms(2) obtain a where a: "map_of (nodes (graph st)) n = Some a"
    by (auto simp: hasNode_def)
  then have "(n, a) \<in> set (nodes (graph st))" by (rule map_of_SomeD)
  with assms(1) have c: "node_id a = n" "n \<in> node_id ` set (nodeList st)"
    by (auto simp: consistent_def)
  have up: "handleMouseUp ?s = Inr (?s\<lparr>selectedNodes := toggleSelection (selectedNodes ?s) (nodeId ?d),
                 focusLog := focusLog ?s @ [nodeId ?d], dragInfoRef := None, cursor := ''default'',
                 listening := False\<rparr>)"
    using dr _ _ _ _ by (rule up_click) (use a c s in simp_all)
  have "\<exists>st2. dispatchUp ?s = Inr st2 \<and> dragInfoRef st2 = None \<and>
          selectedNodes st2 = toggleSelection (selectedNodes st) n \<and>
          focusLog st2 = focusLog st @ [n] \<and> graph st2 = graph st"
    using up s by (simp add: dispatchUp_def afterHandler_def effectCleanup_def)
  moreover have "\<forall>k \<le> length moves. runMoves toGraph ?s (take k moves) = Inr ?s"
    using r by (auto dest: in_set_takeD)
  ultimately show ?thesis
    using r [of moves] by (auto simp: gesture_def toggleSelection_member)
qed

text \<open>
  A drag that begins while no tooltip is shown: pointer-up is handled, the node is
  unpinned and the selection is as it was.
\<close>

lemma gesture_drag_without_tooltip:
  assumes "hasNode (graph st) n" and "down_button down = Some 0" and "tooltip st = None"
    and "\<exists>ev \<in> set moves. exceedsThreshold (down_x down) (down_y down) ev"
  shows "\<exists>st2. gesture toGraph st n down moves = Inr st2 \<and> dragInfoRef st2 = None \<and>
           selectedNodes st2 = selectedNodes st \<and> focusLog st2 = focusLog st \<and>
           (\<exists>a2. map_of (nodes (graph st2)) n = Some a2 \<and> fixed a2 = None)"
proof -
  let ?d = "\<lparr>nodeId = n, startX = down_x down, startY = down_y down, isDragging = False\<rparr>"
  let ?s = "downNode st n down"
  from assms(2) have s: "?s = st\<lparr>dragInfoRef := Some ?d, listening := True\<rparr>"
    by (simp add: downNode_def)
  then have dr: "dragInfoRef ?s = Some ?d" and hn: "hasNode (graph ?s) (nodeId ?d)"
    and li: "listening ?s" and tt: "tooltip ?s = None"
    using assms(1,3) by simp_all
  from assms(4) have "isDragging ?d \<or> (\<exists>ev \<in> set moves. exceedsThreshold (startX ?d) (startY ?d) ev)"
    by simp
  from runMoves_drag [OF li tt dr hn this, of toGraph]
  obtain s1 where s1: "runMoves toGraph ?s moves = Inr s1" "listening s1" "tooltip s1 = None"
    "dragInfoRef s1 = Some (?d\<lparr>isDragging := True\<rparr>)" "hasNode (graph s1) n"
    "selectedNodes s1 = selectedNodes ?s" "focusLog s1 = focusLog ?s"
    by auto
  from up_drag [OF s1(4)] s1(5)
  obtain s2 where s2: "handleMouseUp s1 = Inr s2" "dragInfoRef s2 = None" "tooltip s2 = tooltip s1"
    "selectedNodes s2 = selectedNodes s1" "focusLog s2 = focusLog s1"
    "\<exists>a2. map_of (nodes (graph s2)) n = Some a2 \<and> fixed a2 = None"
    by auto
  then have "dispatchUp s1 = Inr s2"
    using s1(2) by (simp add: dispatchUp_def afterHandler_def)
  with s1 s2 s show ?thesis by (simp add: gesture_def)
qed

text \<open>
  A drag that begins while a tooltip is shown: pointer-up is not handled, the node
  keeps the attribute \<^verbatim>\<open>fixed\<close> and \<^verbatim>\<open>dragInfoRef\<close> keeps the gesture.
\<close>

lemma gesture_drag_with_tooltip:
  assumes "map_of (nodes (graph st)) n = Some a" and "down_button down = Some 0"
    and "tooltip st \<noteq> None"
    and "\<exists>ev \<in> set moves. exceedsThreshold (down_x down) (down_y down) ev"
  shows "\<exists>st2. gesture toGraph st n down moves = Inr st2 \<and> \<not> listening st2 \<and>
           dragInfoRef st2 =
             Some \<lparr>nodeId = n, startX = down_x down, startY = down_y down, isDragging = True\<rparr> \<and>
           selectedNodes st2 = selectedNodes st \<and> focusLog st2 = focusLog st \<and>
           (\<exists>a2. map_of (nodes (graph st2)) n = Some a2 \<and>
                 fixed a2 = (case fixed a of None \<Rightarrow> Some True | Some b \<Rightarrow> Some b))"
proof -
  let ?d = "\<lparr>nodeId = n, startX = down_x down, startY = down_y down, isDragging = False\<rparr>"
  let ?s = "downNode st n down"
  from assms(2) have s: "?s = st\<lparr>dragInfoRef := Some ?d, listening := True\<rparr>"
    by (simp add: downNode_def)
  then have dr: "dragInfoRef ?s = Some ?d" and li: "listening ?s" and tt: "tooltip ?s \<noteq> None"
    and nd: "\<not> isDragging ?d" and a: "map_of (nodes (graph ?s)) (nodeId ?d) = Some a"
    using assms(1,3) by simp_all
  from assms(4) have "\<exists>ev \<in> set moves. exceedsThreshold (startX ?d) (startY ?d) ev"
    by simp
  from runMoves_drag_tooltip [OF li tt dr nd a this, of toGraph]
  obtain s1 where s1: "runMoves toGraph ?s moves = Inr s1" "\<not> listening s1"
    "dragInfoRef s1 = Some (?d\<lparr>isDragging := True\<rparr>)"
    "selectedNodes s1 = selectedNodes ?s" "focusLog s1 = focusLog ?s"
    "\<exists>a1. map_of (nodes (graph s1)) n = Some a1 \<and>
          fixed a1 = (case fixed a of None \<Rightarrow> Some True | Some b \<Rightarrow> Some b)"
    by auto
  from s1(2) have "dispatchUp s1 = Inr s1" by (rule dispatchUp_detached)
  with s1 s show ?thesis by (simp add: gesture_def)
qed

section \<open>Lemmas about discovery mode\<close>

lemma grid_props: "gridShown nl g \<Longrightarrow> set g \<subseteq> set (candidates nl) \<and> length g \<le> GRID_SIZE"
proof (induction rule: gridShown.induct)
  case initial
  then show ?case by simp
next
  case (refresh g shuffled)
  from refresh(2) have "set shuffled = set (candidates nl)" by (rule mset_eq_setD)
  then have "set (take GRID_SIZE shuffled) \<subseteq> set (candidates nl)"
    using set_take_subset [of GRID_SIZE shuffled] by simp
  with refresh.IH show ?case by (auto simp: refreshNodes_def)
qed

section \<open>The interaction controller: claims\<close>

text \<open>
  Claim C8 fails on the code, in its half about drags. The pointer rests on X, so the
  tooltip of X is shown. Pointer-down on X at (100, 100), a move to (110, 100), a move
  to (120, 100), pointer-up. The first move begins the drag, pins X and clears the
  tooltip; \<^verbatim>\<open>GraphView\<close> is rendered again and the cleanup of the effect removes the
  document listeners. The second move and pointer-up are handled by no one: after
  pointer-up X still has \<^verbatim>\<open>fixed\<close> set, at the position of the first move, and
  \<^verbatim>\<open>dragInfoRef\<close> still holds the drag. The claim says that pointer-up unpins the node.
\<close>

theorem drag_with_tooltip_stays_pinned:
  "hasNode (graph hoverState) ''X'' \<and> down_button primaryDown = Some 0 \<and>
   exceedsThreshold (down_x primaryDown) (down_y primaryDown) \<lparr>clientX = 110, clientY = 100\<rparr> \<and>
   (\<exists>st2. gesture plainProjection hoverState ''X'' primaryDown
             [\<lparr>clientX = 110, clientY = 100\<rparr>, \<lparr>clientX = 120, clientY = 100\<rparr>] = Inr st2 \<and>
      (\<exists>a2. map_of (nodes (graph st2)) ''X'' = Some a2 \<and> fixed a2 = Some True \<and> pos_x a2 = 110) \<and>
      dragInfoRef st2 = Some \<lparr>nodeId = ''X'', startX = 100, startY = 100, isDragging = True\<rparr> \<and>
      cursor st2 = ''grabbing'' \<and> \<not> listening st2 \<and> selectedNodes st2 = [])"
proof -
  have g: "graph hoverState = scenarioGraph"
    by (simp add: hoverState_def scenarioState_def initialState_def scenarioGraph_def loadedGraph_def)
  have h: "hasNode (graph hoverState) ''X''"
    by (simp add: g scenarioGraph_eq hasNode_def)
  have b: "down_button primaryDown = Some 0" by (simp add: primaryDown_def)
  have e: "exceedsThreshold (down_x primaryDown) (down_y primaryDown) \<lparr>clientX = 110, clientY = 100\<rparr>"
    by (simp add: exceedsThreshold_iff primaryDown_def power2_eq_square)
  let ?s = "downNode hoverState ''X'' primaryDown"
  let ?m = "\<lparr>clientX = 110, clientY = 100\<rparr>"
  have s: "?s = hoverState\<lparr>dragInfoRef :=
              Some \<lparr>nodeId = ''X'', startX = 100, startY = 100, isDragging = False\<rparr>,
            listening := True\<rparr>"
    by (simp add: downNode_def primaryDown_def)
  have e': "exceedsThreshold 100 100 ?m"
    using e by (simp add: primaryDown_def)
  have t: "tooltip hoverState = Some ''X''" "selectedNodes hoverState = []"
    by (simp_all add: hoverState_def scenarioState_def initialState_def)
  have m1: "\<exists>s1. handleMouseMove plainProjection ?s ?m = Inr s1 \<and> tooltip s1 = None \<and>
      (\<exists>a2. map_of (nodes (graph s1)) ''X'' = Some a2 \<and> fixed a2 = Some True \<and> pos_x a2 = 110) \<and>
      dragInfoRef s1 = Some \<lparr>nodeId = ''X'', startX = 100, startY = 100, isDragging = True\<rparr> \<and>
      cursor s1 = ''grabbing'' \<and> selectedNodes s1 = []"
    unfolding s
    by (simp add: handleMouseMove_def e' beginDrag_def hasNodeAttributeFixed_def
        updateNodeAttributes_def writePosition_def hasNode_def plainProjection_def
        g t scenarioGraph_eq)
  then obtain s1 where s1: "handleMouseMove plainProjection ?s ?m = Inr s1" "tooltip s1 = None"
      "\<exists>a2. map_of (nodes (graph s1)) ''X'' = Some a2 \<and> fixed a2 = Some True \<and> pos_x a2 = 110"
      "dragInfoRef s1 = Some \<lparr>nodeId = ''X'', startX = 100, startY = 100, isDragging = True\<rparr>"
      "cursor s1 = ''grabbing''" "selectedNodes s1 = []"
    by blast
  have d1: "dispatchMove plainProjection ?s ?m = Inr (effectCleanup s1)"
    using s1(1,2) t by (simp add: dispatchMove_def afterHandler_def s)
  have nl: "\<not> listening (effectCleanup s1)" by (simp add: effectCleanup_def)
  have d2: "dispatchMove plainProjection (effectCleanup s1) \<lparr>clientX = 120, clientY = 100\<rparr>
              = Inr (effectCleanup s1)"
    using nl by (rule dispatchMove_detached)
  have up: "dispatchUp (effectCleanup s1) = Inr (effectCleanup s1)"
    using nl by (rule dispatchUp_detached)
  have "gesture plainProjection hoverState ''X'' primaryDown
          [?m, \<lparr>clientX = 120, clientY = 100\<rparr>] = Inr (effectCleanup s1)"
    by (simp add: gesture_def d1 d2 up)
  with s1 nl h b e show ?thesis by (simp add: effectCleanup_def)
qed

text \<open>
  Claim C9 fails on the code. X is tracked by a gesture and removed from the graph
  before the next pointer event. Before the drag began, a pointer-move beyond the
  threshold raises \<^verbatim>\<open>NotFoundGraphError\<close> (at \<^verbatim>\<open>hasNodeAttribute\<close>), and so does pointer-up
  (at \<^verbatim>\<open>getNodeAttributes\<close>). After the drag began, a pointer-move raises it (at
  \<^verbatim>\<open>setNodeAttribute\<close>); only pointer-up, which asks \<^verbatim>\<open>hasNode\<close> first, returns.
\<close>

theorem removed_node_gesture_throws:
  "handleMouseMove plainProjection
     ((downNode scenarioState ''X'' primaryDown)\<lparr>graph := dropNode (graph scenarioState) ''X''\<rparr>)
     \<lparr>clientX = 110, clientY = 100\<rparr> = Inl NotFoundGraphError \<and>
   handleMouseUp
     ((downNode scenarioState ''X'' primaryDown)\<lparr>graph := dropNode (graph scenarioState) ''X''\<rparr>)
     = Inl NotFoundGraphError \<and>
   (\<exists>s. handleMouseMove plainProjection (downNode scenarioState ''X'' primaryDown)
            \<lparr>clientX = 110, clientY = 100\<rparr> = Inr s \<and>
        handleMouseMove plainProjection (s\<lparr>graph := dropNode (graph s) ''X''\<rparr>)
            \<lparr>clientX = 120, clientY = 100\<rparr> = Inl NotFoundGraphError \<and>
        (\<exists>s2. handleMouseUp (s\<lparr>graph := dropNode (graph s) ''X''\<rparr>) = Inr s2))"
proof -
  let ?d = "\<lparr>nodeId = ''X'', startX = 100, startY = 100, isDragging = False\<rparr>"
  let ?s0 = "downNode scenarioState ''X'' primaryDown"
  let ?r = "?s0\<lparr>graph := dropNode (graph scenarioState) ''X''\<rparr>"
  have d0: "dragInfoRef ?s0 = Some ?d" by (simp add: downNode_def primaryDown_def)
  then have dr: "dragInfoRef ?r = Some ?d" by simp
  have ab: "\<not> hasNode (graph ?r) (nodeId ?d)" by (simp add: hasNode_dropNode)
  have ex: "exceedsThreshold (startX ?d) (startY ?d) \<lparr>clientX = 110, clientY = 100\<rparr>"
    by (simp add: exceedsThreshold_iff power2_eq_square)
  have 1: "handleMouseMove plainProjection ?r \<lparr>clientX = 110, clientY = 100\<rparr> = Inl NotFoundGraphError"
    using dr ab by (rule move_absent) (use ex in simp)
  have 2: "handleMouseUp ?r = Inl NotFoundGraphError"
    using dr _ ab by (rule up_click_absent) simp
  have g: "graph ?s0 = scenarioGraph"
    by (simp add: downNode_def scenarioState_def initialState_def scenarioGraph_def loadedGraph_def)
  have hn: "hasNode (graph ?s0) (nodeId ?d)"
    by (simp add: g scenarioGraph_eq hasNode_def)
  from move_drag [OF d0 hn, of "\<lparr>clientX = 110, clientY = 100\<rparr>" plainProjection] ex
  obtain s where s: "handleMouseMove plainProjection ?s0 \<lparr>clientX = 110, clientY = 100\<rparr> = Inr s"
    "dragInfoRef s = Some (?d\<lparr>isDragging := True\<rparr>)"
    by auto
  let ?q = "s\<lparr>graph := dropNode (graph s) ''X''\<rparr>"
  have dq: "dragInfoRef ?q = Some (?d\<lparr>isDragging := True\<rparr>)" using s(2) by simp
  have aq: "\<not> hasNode (graph ?q) (nodeId (?d\<lparr>isDragging := True\<rparr>))" by (simp add: hasNode_dropNode)
  have 3: "handleMouseMove plainProjection ?q \<lparr>clientX = 120, clientY = 100\<rparr> = Inl NotFoundGraphError"
    using dq aq by (rule move_absent) simp
  have 4: "\<exists>s2. handleMouseUp ?q = Inr s2"
    using up_drag_absent [OF dq _ aq] by simp
  from 1 2 s(1) 3 4 show ?thesis by blast
qed

section \<open>Discovery mode: claims\<close>

text \<open>
  Claim C10. The candidate pool is the set of the nodes on the node list whose score
  is at least 8 or whose genres include the award tag; every grid the modal displays
  is a subset of the pool and has at most 25 entries; with an empty pool a refresh
  leaves the grid as it was.
\<close>

theorem discovery_pool_and_grid:
 "set (candidates nl) = {n \<in> set nl. 8 \<le> score n \<or> ''Award Winning'' \<in> set (genres n)} \<and>
  (\<forall>g. gridShown nl g \<longrightarrow> set g \<subseteq> set (candidates nl) \<and> length g \<le> 25) \<and>
  (candidates nl = [] \<longrightarrow> (\<forall>shuffled g. refreshNodes (candidates nl) shuffled g = g))"
  using grid_props [of nl] by (auto simp: candidates_def refreshNodes_def GRID_SIZE_def)

text \<open>
  The node list of the award dataset: the pool is the award winner P, and the grid
  after a refresh is P. A node list with Q alone has an empty pool, and a refresh
  keeps the grid.
\<close>

theorem discovery_pool_and_grid_witness:
  "candidates awardNodeList = [\<lparr>node_id = ''P'', score = 8, genres = [''Drama'', ''Award Winning'']\<rparr>] \<and>
   gridShown awardNodeList [\<lparr>node_id = ''P'', score = 8, genres = [''Drama'', ''Award Winning'']\<rparr>] \<and>
   set [\<lparr>node_id = ''P'', score = 8, genres = [''Drama'', ''Award Winning'']\<rparr>]
     \<subseteq> set (candidates awardNodeList) \<and>
   candidates [\<lparr>node_id = ''Q'', score = 7, genres = [''Action'']\<rparr>] = [] \<and>
   refreshNodes (candidates [\<lparr>node_id = ''Q'', score = 7, genres = [''Action'']\<rparr>]) []
      [\<lparr>node_id = ''P'', score = 8, genres = [''Drama'', ''Award Winning'']\<rparr>]
     = [\<lparr>node_id = ''P'', score = 8, genres = [''Drama'', ''Award Winning'']\<rparr>]"
proof -
  let ?P = "\<lparr>node_id = ''P'', score = 8, genres = [''Drama'', ''Award Winning'']\<rparr>"
  let ?Q = "\<lparr>node_id = ''Q'', score = 7, genres = [''Action'']\<rparr>"
  have nl: "awardNodeList = [?P, ?Q]"
    by (simp add: awardNodeList_def awardData_def load_eval)
  have c: "candidates awardNodeList = [?P]"
    by (simp add: nl candidates_def)
  have "gridShown awardNodeList (refreshNodes (candidates awardNodeList) [?P] [])"
    by (rule gridShown.refresh) (simp_all add: gridShown.initial c)
  then have g: "gridShown awardNodeList [?P]"
    by (simp add: c refreshNodes_def GRID_SIZE_def)
  have e: "candidates [?Q] = []" by (simp add: candidates_def)
  from discovery_pool_and_grid [of awardNodeList] g
  have 1: "set [?P] \<subseteq> set (candidates awardNodeList)" by blast
  from discovery_pool_and_grid [of "[?Q]"] e
  have 2: "refreshNodes (candidates [?Q]) [] [?P] = [?P]" by blast
  from c g 1 e 2 show ?thesis by blast
qed

end
